theory Spec2Isabelle
  imports Complex_Main
begin

section \<open>Numbers and points\<close>

text \<open>
  The TypeScript type \<open>number\<close> is modelled by \<open>real\<close> for coordinates, sizes, angles and
  durations: the arithmetic is the exact one, and rounding of IEEE doubles, signed zeros,
  infinities and NaN are outside the model of these quantities. A value \<open>v || d\<close> of the
  source is \<open>d\<close> when \<open>v\<close> is \<open>undefined\<close> (here \<open>None\<close>) or \<open>0\<close>.

  A page number given to the pagination engine or stored as its current page is an
  integral number or \<open>NaN\<close>. Every comparison \<open><\<close>, \<open>>\<close> and \<open>===\<close> with \<open>NaN\<close> is false,
  and \<open>NaN\<close> is falsy.
\<close>

datatype page_number = NaN | Page int

definition page_less :: "page_number \<Rightarrow> int \<Rightarrow> bool" where
  "page_less a b = (case a of NaN \<Rightarrow> False | Page n \<Rightarrow> n < b)"

definition page_greater :: "page_number \<Rightarrow> int \<Rightarrow> bool" where
  "page_greater a b = (case a of NaN \<Rightarrow> False | Page n \<Rightarrow> n > b)"

definition strict_eq :: "page_number \<Rightarrow> page_number \<Rightarrow> bool" where
  "strict_eq a b =
     (case a of
        NaN \<Rightarrow> False
      | Page n \<Rightarrow> (case b of NaN \<Rightarrow> False | Page m \<Rightarrow> n = m))"

definition page_or :: "page_number \<Rightarrow> int \<Rightarrow> int" where
  "page_or a d = (case a of NaN \<Rightarrow> d | Page n \<Rightarrow> (if n = 0 then d else n))"

record Point2D =
  px :: real
  py :: real

definition num_or :: "real option \<Rightarrow> real \<Rightarrow> real" where
  "num_or v d = (case v of None \<Rightarrow> d | Some n \<Rightarrow> (if n = 0 then d else n))"

definition int_or :: "int option \<Rightarrow> int \<Rightarrow> int" where
  "int_or v d = (case v of None \<Rightarrow> d | Some n \<Rightarrow> (if n = 0 then d else n))"

definition str_or :: "string option \<Rightarrow> string \<Rightarrow> string" where
  "str_or v d = (case v of None \<Rightarrow> d | Some n \<Rightarrow> (if n = [] then d else n))"

definition bool_of_opt :: "bool option \<Rightarrow> bool" where
  "bool_of_opt v = (case v of None \<Rightarrow> False | Some b \<Rightarrow> b)"

section \<open>Utils (src/unnamed/part\_002)\<close>

text \<open>\<open>Math.round\<close>: the nearest integer, a tie going up.\<close>

definition math_round :: "real \<Rightarrow> real" where
  "math_round v = of_int \<lfloor>v + 1 / 2\<rfloor>"

definition createPoint2D :: "real \<Rightarrow> real \<Rightarrow> Point2D" where
  "createPoint2D a b =
     \<lparr>px = math_round (a * 1000) / 1000, py = math_round (b * 1000) / 1000\<rparr>"

text \<open>
  The cache \<open>memoizedBezier\<close> is a \<open>Map<string, Point2D>\<close>. Its values are objects:
  \<open>bezier\<close> returns the object it stores, and on a hit the object it stored before. The
  model keeps the objects \<open>bezier\<close> has created in a list and names each by its index;
  the cache maps a key to such a reference, and \<open>bezier\<close> returns a reference. The key
  is a template string of the nine numbers, separated by commas. The conversion of a
  number to a string is the parameter \<open>fmt\<close> of the model.
\<close>

record memo =
  objects :: "Point2D list"
  entries :: "string \<rightharpoonup> nat"

definition memo_empty :: memo where
  "memo_empty = \<lparr>objects = [], entries = Map.empty\<rparr>"

text \<open>The point a reference denotes in a state.\<close>

definition deref :: "memo \<Rightarrow> nat \<Rightarrow> Point2D option" where
  "deref m r = (if r < length (objects m) then Some (objects m ! r) else None)"

definition bezier_key ::
  "(real \<Rightarrow> string) \<Rightarrow> Point2D \<Rightarrow> Point2D \<Rightarrow> Point2D \<Rightarrow> Point2D \<Rightarrow> real \<Rightarrow> string" where
  "bezier_key fmt p1 p2 p3 p4 t =
     fmt (px p1) @ '','' @ fmt (py p1) @ '','' @ fmt (px p2) @ '','' @ fmt (py p2) @ '','' @
     fmt (px p3) @ '','' @ fmt (py p3) @ '','' @ fmt (px p4) @ '','' @ fmt (py p4) @ '','' @
     fmt t"

definition bezier ::
  "(real \<Rightarrow> string) \<Rightarrow> memo \<Rightarrow> Point2D \<Rightarrow> Point2D \<Rightarrow> Point2D \<Rightarrow> Point2D \<Rightarrow> real
     \<Rightarrow> nat \<times> memo" where
  "bezier fmt m p1 p2 p3 p4 t =
     (let key = bezier_key fmt p1 p2 p3 p4 t in
      case entries m key of
        Some r \<Rightarrow> (r, m)
      | None \<Rightarrow>
         (let mum1 = 1 - t;
              mum13 = mum1 * mum1 * mum1;
              mu3 = t * t * t;
              point = createPoint2D
                (mum13 * px p1 + 3 * t * mum1 * mum1 * px p2 + 3 * t * t * mum1 * px p3
                   + mu3 * px p4)
                (mum13 * py p1 + 3 * t * mum1 * mum1 * py p2 + 3 * t * t * mum1 * py p3
                   + mu3 * py p4);
              r = length (objects m)
          in (r, m\<lparr>objects := objects m @ [point], entries := (entries m)(key \<mapsto> r)\<rparr>)))"

definition clearMemoization :: "memo \<Rightarrow> memo" where
  "clearMemoization m = m\<lparr>entries := Map.empty\<rparr>"

text \<open>
  The point a call returns, read at once: the content of the returned reference in the
  state after the call.
\<close>

definition bezier_point ::
  "(real \<Rightarrow> string) \<Rightarrow> memo \<Rightarrow> Point2D \<Rightarrow> Point2D \<Rightarrow> Point2D \<Rightarrow> Point2D \<Rightarrow> real
     \<Rightarrow> Point2D option" where
  "bezier_point fmt m p1 p2 p3 p4 t =
     deref (snd (bezier fmt m p1 p2 p3 p4 t)) (fst (bezier fmt m p1 p2 p3 p4 t))"

text \<open>
  A caller that holds a returned point can assign to its fields (\<open>Point2D\<close> is not
  read-only): \<open>caller_write r p\<close> leaves the object \<open>r\<close> with the content \<open>p\<close>.
\<close>

definition caller_write :: "nat \<Rightarrow> Point2D \<Rightarrow> memo \<Rightarrow> memo" where
  "caller_write r p m = m\<lparr>objects := (objects m)[r := p]\<rparr>"

text \<open>
  The specification's reading of the result: the cubic polynomial in Bernstein form,
  evaluated directly, then rounded to three decimals.
\<close>

definition bezier_direct :: "Point2D \<Rightarrow> Point2D \<Rightarrow> Point2D \<Rightarrow> Point2D \<Rightarrow> real \<Rightarrow> Point2D" where
  "bezier_direct p1 p2 p3 p4 t =
     createPoint2D
       ((1 - t) ^ 3 * px p1 + 3 * t * (1 - t) ^ 2 * px p2 + 3 * t ^ 2 * (1 - t) * px p3
          + t ^ 3 * px p4)
       ((1 - t) ^ 3 * py p1 + 3 * t * (1 - t) ^ 2 * py p2 + 3 * t ^ 2 * (1 - t) * py p3
          + t ^ 3 * py p4)"

text \<open>The numbers of one call, the ones that are written into its key.\<close>

definition bezier_args :: "Point2D \<Rightarrow> Point2D \<Rightarrow> Point2D \<Rightarrow> Point2D \<Rightarrow> real \<Rightarrow> real list" where
  "bezier_args p1 p2 p3 p4 t =
     [px p1, py p1, px p2, py p2, px p3, py p3, px p4, py p4, t]"

text \<open>
  The states that calls of \<open>bezier\<close> and of \<open>clearMemoization\<close> alone produce from the
  empty cache: no caller has written to a returned point. \<open>D\<close> is the set of numbers the
  calls are made with.
\<close>

inductive memo_reachable :: "(real \<Rightarrow> string) \<Rightarrow> real set \<Rightarrow> memo \<Rightarrow> bool"
  for fmt :: "real \<Rightarrow> string" and D :: "real set" where
  memo_init: "memo_reachable fmt D memo_empty"
| memo_bezier:
    "memo_reachable fmt D m \<Longrightarrow> set (bezier_args p1 p2 p3 p4 t) \<subseteq> D \<Longrightarrow>
     memo_reachable fmt D (snd (bezier fmt m p1 p2 p3 p4 t))"
| memo_clear: "memo_reachable fmt D m \<Longrightarrow> memo_reachable fmt D (clearMemoization m)"

text \<open>
  What every entry of such a state satisfies: its key is the key of some call, and its
  value is an object whose content is the direct evaluation at that call's arguments.
\<close>

definition memo_inv :: "(real \<Rightarrow> string) \<Rightarrow> real set \<Rightarrow> memo \<Rightarrow> bool" where
  "memo_inv fmt D m \<longleftrightarrow>
     (\<forall>k r. entries m k = Some r \<longrightarrow>
        r < length (objects m) \<and>
        (\<exists>p1 p2 p3 p4 t. set (bezier_args p1 p2 p3 p4 t) \<subseteq> D \<and>
           k = bezier_key fmt p1 p2 p3 p4 t \<and> objects m ! r = bezier_direct p1 p2 p3 p4 t))"

text \<open>Fields joined by commas, as the template string of the key does.\<close>

fun joinc :: "string list \<Rightarrow> string" where
  "joinc [] = []"
| "joinc [a] = a"
| "joinc (a # b # r) = a @ CHR '','' # joinc (b # r)"

text \<open>A number format on the two numbers \<open>0\<close> and \<open>1\<close>, for concrete evaluations.\<close>

definition fmt01 :: "real \<Rightarrow> string" where
  "fmt01 v = (if v = 0 then ''0'' else ''1'')"

section \<open>Shared vocabulary of the two engines\<close>

text \<open>
  A pointer event carries client coordinates; a touch event carries its list of touches.
  Corners are the strings \<open>tl\<close>, \<open>tr\<close>, \<open>bl\<close>, \<open>br\<close> of the source, and a detection
  that returns \<open>null\<close> is \<open>None\<close>.
\<close>

datatype pointer_event = MouseEvent real real | TouchEvent "(real \<times> real) list"

datatype error = NoParent | InvalidDisplayMode string | InvalidPageNumber page_number

text \<open>\<open>Math.atan2\<close> on exact reals: the angle of the vector \<open>(x, y)\<close> in \<open>(-\<pi>, \<pi>]\<close>.\<close>

definition atan2 :: "real \<Rightarrow> real \<Rightarrow> real" where
  "atan2 y x =
     (if 0 < x then arctan (y / x)
      else if x < 0 then (if 0 \<le> y then arctan (y / x) + pi else arctan (y / x) - pi)
      else if 0 < y then pi / 2
      else if y < 0 then - (pi / 2)
      else 0)"

section \<open>FlipPage (src/src/flip-page.ts)\<close>

text \<open>
  The options are the record after the constructor has merged the caller's partial
  options over \<open>defaultFlipOptions\<close>; a field the caller set to \<open>undefined\<close> is \<open>None\<close>.
\<close>

record FlipOptions =
  f_corners :: "string option"
  f_cornerSize :: "real option"
  f_gradients :: "bool option"
  f_duration :: "real option"
  f_acceleration :: "bool option"

definition defaultFlipOptions :: FlipOptions where
  "defaultFlipOptions =
     \<lparr>f_corners = Some ''forward'', f_cornerSize = Some 100, f_gradients = Some True,
      f_duration = Some 600, f_acceleration = Some True\<rparr>"

text \<open>
  The value of \<open>style.transform\<close> of the flipping page. A \<open>matrix(...)\<close> or
  \<open>matrix3d(...)\<close> string is kept as the list of its numeric arguments, in the order
  they are written.
\<close>

datatype css_transform = Unset | TransformNone | Matrix "real list" | Matrix3d "real list"

record FlipPoint = Point2D +
  corner :: string

datatype flip_event = flipstart FlipPoint | flipend

text \<open>
  The state of one engine: the host element's live dimensions and bounding rectangle,
  the fields of the class, the styles the engine writes, the events it has dispatched and
  the number of settle timers that have not fired yet. A constructed engine always has
  its \<open>fpage\<close>, so the guards on \<open>this.data.fpage\<close> never fire.
\<close>

record FlipPage =
  opts :: FlipOptions
  elementWidth :: real
  elementHeight :: real
  rectLeft :: real
  rectTop :: real
  point :: "FlipPoint option"
  isTurning :: bool
  isDisabled :: bool
  fpage_transform :: css_transform
  fpage_transition :: "real option"
  shadow :: "real option option"
  wrapper_size :: real
  fwrapper_size :: real
  flip_events :: "flip_event list"
  flip_timers :: nat

definition resize :: "FlipPage \<Rightarrow> FlipPage" where
  "resize s =
     (let width = elementWidth s;
          height = elementHeight s;
          size = sqrt (width * width + height * height)
      in s\<lparr>wrapper_size := size, fwrapper_size := size\<rparr>)"

text \<open>
  The constructor: \<open>setupWrapper\<close> fails when the element has no parent; the shadow node
  exists when \<open>gradients\<close> is set (its background is not written yet).
\<close>

definition FlipPage_new ::
  "bool \<Rightarrow> real \<Rightarrow> real \<Rightarrow> real \<Rightarrow> real \<Rightarrow> FlipOptions \<Rightarrow> error + FlipPage" where
  "FlipPage_new has_parent width height rleft rtop options =
     (if \<not> has_parent then Inl NoParent
      else Inr (resize
        \<lparr>opts = options, elementWidth = width, elementHeight = height,
         rectLeft = rleft, rectTop = rtop, point = None, isTurning = False,
         isDisabled = False, fpage_transform = Unset, fpage_transition = None,
         shadow = (if bool_of_opt (f_gradients options) then Some None else None),
         wrapper_size = 0, fwrapper_size = 0, flip_events = [], flip_timers = 0\<rparr>))"

definition getPoint :: "FlipPage \<Rightarrow> pointer_event \<Rightarrow> Point2D" where
  "getPoint s e =
     (case e of
        TouchEvent touches \<Rightarrow>
          (case touches of
             [] \<Rightarrow> \<lparr>px = 0, py = 0\<rparr>
           | touch # _ \<Rightarrow> \<lparr>px = fst touch - rectLeft s, py = snd touch - rectTop s\<rparr>)
      | MouseEvent clientX clientY \<Rightarrow> \<lparr>px = clientX - rectLeft s, py = clientY - rectTop s\<rparr>)"

definition allowedCorners :: "string option \<Rightarrow> string list" where
  "allowedCorners corners =
     (case corners of
        Some c \<Rightarrow>
          (if c = ''forward'' then [''br'', ''tr'']
           else if c = ''backward'' then [''bl'', ''tl'']
           else if c = ''all'' then [''tl'', ''bl'', ''tr'', ''br'']
           else [''br'', ''tr''])
      | None \<Rightarrow> [''br'', ''tr''])"

definition detectCorner :: "FlipPage \<Rightarrow> Point2D \<Rightarrow> string option" where
  "detectCorner s p =
     (let width = elementWidth s; height = elementHeight s in
      case f_cornerSize (opts s) of
        None \<Rightarrow> None
      | Some cornerSize \<Rightarrow>
          if cornerSize = 0 then None
          else
            (let allowed = allowedCorners (f_corners (opts s)) in
             if py p < cornerSize then
               (if px p < cornerSize \<and> ''tl'' \<in> set allowed then Some ''tl''
                else if px p > width - cornerSize \<and> ''tr'' \<in> set allowed then Some ''tr''
                else None)
             else if py p > height - cornerSize then
               (if px p < cornerSize \<and> ''bl'' \<in> set allowed then Some ''bl''
                else if px p > width - cornerSize \<and> ''br'' \<in> set allowed then Some ''br''
                else None)
             else None))"

definition flip_matrix :: "Point2D \<Rightarrow> real \<Rightarrow> real list" where
  "flip_matrix foldp angle =
     [cos angle, sin angle, - sin angle, cos angle, px foldp, py foldp]"

definition applyTransform :: "Point2D \<Rightarrow> real \<Rightarrow> FlipPage \<Rightarrow> FlipPage" where
  "applyTransform foldp angle s =
     (let matrix = flip_matrix foldp angle;
          transform =
            (if bool_of_opt (f_acceleration (opts s)) then Matrix3d (matrix @ [0, 0, 0, 0, 1])
             else Matrix matrix);
          s1 = s\<lparr>fpage_transform := transform\<rparr>
      in if bool_of_opt (f_gradients (opts s)) \<and> shadow s \<noteq> None then
           (let intensity = 0.5 - \<bar>angle\<bar> / (2 * pi)
            in s1\<lparr>shadow := Some (Some (0.5 - intensity))\<rparr>)
         else s1)"

definition updateFlip :: "Point2D \<Rightarrow> FlipPage \<Rightarrow> FlipPage" where
  "updateFlip p s =
     (case point s of
        None \<Rightarrow> s
      | Some start \<Rightarrow>
          (let width = elementWidth s;
               height = elementHeight s;
               angle0 = atan2 (py p - py start) (px p - px start);
               angle = (if take 1 (corner start) = ''b'' then angle0 + pi else angle0);
               foldp = \<lparr>px = width - cos angle * width, py = height - sin angle * height\<rparr>
           in applyTransform foldp angle s))"

text \<open>
  \<open>completeFlip\<close> starts the settle transition and schedules the timer that clears the
  transition styling; \<open>flip_timer_fired\<close> is that timer's callback.
\<close>

definition completeFlip :: "FlipPage \<Rightarrow> FlipPage" where
  "completeFlip s =
     (let duration = num_or (f_duration (opts s)) 600
      in s\<lparr>fpage_transition := Some duration, fpage_transform := TransformNone,
           flip_timers := Suc (flip_timers s)\<rparr>)"

definition flip_timer_fired :: "FlipPage \<Rightarrow> FlipPage" where
  "flip_timer_fired s =
     (if flip_timers s = 0 then s
      else s\<lparr>fpage_transition := None, flip_timers := flip_timers s - 1\<rparr>)"

definition handleStart :: "pointer_event \<Rightarrow> FlipPage \<Rightarrow> FlipPage" where
  "handleStart e s =
     (if isDisabled s \<or> isTurning s then s
      else
        (let p = getPoint s e in
         case detectCorner s p of
           None \<Rightarrow> s
         | Some c \<Rightarrow>
             (let start = \<lparr>px = px p, py = py p, corner = c\<rparr>
              in s\<lparr>point := Some start, isTurning := True,
                   flip_events := flip_events s @ [flipstart start]\<rparr>)))"

definition handleMove :: "pointer_event \<Rightarrow> FlipPage \<Rightarrow> FlipPage" where
  "handleMove e s =
     (if point s = None \<or> \<not> isTurning s then s else updateFlip (getPoint s e) s)"

definition handleEnd :: "FlipPage \<Rightarrow> FlipPage" where
  "handleEnd s =
     (if point s = None \<or> \<not> isTurning s then s
      else
        (let s1 = completeFlip (s\<lparr>isTurning := False\<rparr>)
         in s1\<lparr>point := None, flip_events := flip_events s1 @ [flipend]\<rparr>))"

definition getDefaultCornerPoint :: "FlipPage \<Rightarrow> string \<Rightarrow> Point2D option" where
  "getDefaultCornerPoint s c =
     (let width = elementWidth s; height = elementHeight s in
      if c = ''tl'' then Some \<lparr>px = 0, py = 0\<rparr>
      else if c = ''tr'' then Some \<lparr>px = width, py = 0\<rparr>
      else if c = ''bl'' then Some \<lparr>px = 0, py = height\<rparr>
      else if c = ''br'' then Some \<lparr>px = width, py = height\<rparr>
      else None)"

definition flip :: "string \<Rightarrow> FlipPage \<Rightarrow> FlipPage" where
  "flip c s =
     (if isDisabled s \<or> isTurning s then s
      else
        (case getDefaultCornerPoint s c of
           None \<Rightarrow> s
         | Some p \<Rightarrow>
             updateFlip p
               (s\<lparr>point := Some \<lparr>px = px p, py = py p, corner = c\<rparr>, isTurning := True\<rparr>)))"

definition disable :: "bool \<Rightarrow> FlipPage \<Rightarrow> FlipPage" where
  "disable disabled s = s\<lparr>isDisabled := disabled\<rparr>"

text \<open>
  The specification's reading of the accelerated transform: the 4x4 matrix, in the
  column-major order of \<open>matrix3d\<close>, that extends the 2D matrix
  \<open>matrix(a, b, c, d, tx, ty)\<close> with zeros in the added entries and ones on the added
  diagonal. A \<open>matrix3d\<close> takes sixteen numbers.
\<close>

definition matrix3d_of_2d :: "real list \<Rightarrow> real list" where
  "matrix3d_of_2d m =
     (case m of
        [a, b, c, d, tx, ty] \<Rightarrow> [a, b, 0, 0, c, d, 0, 0, 0, 0, 1, 0, tx, ty, 0, 1]
      | _ \<Rightarrow> [])"

definition transform_wellformed :: "css_transform \<Rightarrow> bool" where
  "transform_wellformed t =
     (case t of
        Unset \<Rightarrow> True
      | TransformNone \<Rightarrow> True
      | Matrix m \<Rightarrow> length m = 6
      | Matrix3d m \<Rightarrow> length m = 16)"

text \<open>
  The engine the constructor builds on a surface of 400 by 300 pixels at the origin, with
  the default options and the given corner preset.
\<close>

definition flip_demo :: "string \<Rightarrow> FlipPage" where
  "flip_demo corners =
     resize
       \<lparr>opts = defaultFlipOptions\<lparr>f_corners := Some corners\<rparr>, elementWidth = 400,
        elementHeight = 300, rectLeft = 0, rectTop = 0, point = None, isTurning = False,
        isDisabled = False, fpage_transform = Unset, fpage_transition = None,
        shadow = Some None, wrapper_size = 0, fwrapper_size = 0, flip_events = [],
        flip_timers = 0\<rparr>"

section \<open>TurnPage (src/unnamed/part\_001)\<close>

text \<open>
  The options are the record after the constructor has merged the caller's partial
  options over \<open>defaultLeafOptions\<close>. The field \<open>corners\<close> of \<open>LeafOptions\<close> is an object
  from a corner direction to a list of corners. The constructor reads \<open>options.page || 1\<close>,
  so that a \<open>page\<close> option of \<open>NaN\<close> acts as an absent one.
\<close>

record LeafOptions =
  l_page :: "int option"
  l_pages :: "int option"
  l_width :: "real option"
  l_height :: "real option"
  l_gradients :: "bool option"
  l_duration :: "real option"
  l_acceleration :: "bool option"
  l_display :: "string option"
  l_corners :: "(string \<times> string list) list option"

definition defaultLeafOptions :: LeafOptions where
  "defaultLeafOptions =
     \<lparr>l_page = Some 1, l_pages = None, l_width = None, l_height = None,
      l_gradients = Some True, l_duration = Some 600, l_acceleration = Some True,
      l_display = Some ''double'', l_corners = None\<rparr>"

definition displays :: "string list" where
  "displays = [''single'', ''double'']"

datatype css_len = Auto | Px real

datatype visibility = Visible | Hidden

text \<open>\<open>Rotate d z\<close> is \<open>rotate(d deg)\<close>, followed by \<open>translateZ(0)\<close> when \<open>z\<close> holds.\<close>

datatype rotate_transform = NotSet | NoneValue | Rotate real bool

record PagePosition =
  pos_top :: real
  pos_left :: css_len
  pos_right :: css_len
  pos_bottom :: css_len

definition pagePositions :: "int \<Rightarrow> PagePosition option" where
  "pagePositions i =
     (if i = 0 then Some \<lparr>pos_top = 0, pos_left = Px 0, pos_right = Auto, pos_bottom = Auto\<rparr>
      else if i = 1 then
        Some \<lparr>pos_top = 0, pos_left = Auto, pos_right = Px 0, pos_bottom = Auto\<rparr>
      else None)"

text \<open>
  A page wrapper is a node the engine creates; the record holds the inline styles the
  engine writes, the page element it contains and whether it is still in the document.
  Page elements are the caller's nodes, named by a number; the engine writes their width
  and height.
\<close>

record wrapper =
  w_width :: real
  w_height :: real
  w_visibility :: "visibility option"
  w_top :: "css_len option"
  w_left :: "css_len option"
  w_right :: "css_len option"
  w_bottom :: "css_len option"
  w_zIndex :: "int option"
  w_transformOrigin :: "(real \<times> real) option"
  w_transform :: rotate_transform
  w_transition :: "real option"
  w_child :: nat
  w_attached :: bool

record elem_style =
  e_width :: "real option"
  e_height :: "real option"

datatype turn_event =
    displayChanged string string
  | pageChanged page_number page_number
  | flipStart int string
  | flipMove int real
  | flipComplete int

text \<open>
  The state of one engine. The objects \<open>pageObjs\<close>, \<open>pageWrap\<close> and \<open>pagePlace\<close> are
  association lists with one entry for each key; \<open>pageWrap\<close> and \<open>pageObjs\<close> hold the
  index of a wrapper in \<open>wrappers\<close> and the number of a page element. \<open>timers\<close> are the
  wrappers of the scheduled callbacks that clear the transition styling, oldest first,
  and \<open>events\<close> are the notifications dispatched so far (listeners do not call back
  into the engine).
\<close>

record TurnPage =
  options :: LeafOptions
  offsetWidth :: real
  offsetHeight :: real
  boundingLeft :: real
  boundingTop :: real
  element_transform :: "string option"
  pageObjs :: "(int \<times> nat) list"
  pageWrap :: "(int \<times> nat) list"
  pagePlace :: "(int \<times> int) list"
  pageMv :: "int list"
  totalPages :: int
  page :: page_number
  display :: string
  disabled :: bool
  done_flag :: bool
  wrappers :: "wrapper list"
  elems :: "nat \<Rightarrow> elem_style"
  events :: "turn_event list"
  timers :: "nat list"

text \<open>The remainder \<open>a % b\<close> of JavaScript: it has the sign of \<open>a\<close>.\<close>

definition js_rem :: "int \<Rightarrow> int \<Rightarrow> int" where
  "js_rem a b = sgn a * (\<bar>a\<bar> mod \<bar>b\<bar>)"

text \<open>The assignment \<open>obj[k] = v\<close> on an object kept as an association list.\<close>

fun obj_set :: "'k \<Rightarrow> 'v \<Rightarrow> ('k \<times> 'v) list \<Rightarrow> ('k \<times> 'v) list" where
  "obj_set k v [] = [(k, v)]"
| "obj_set k v (kv # r) = (if fst kv = k then (k, v) # r else kv # obj_set k v r)"

text \<open>
  A write to the styles of the wrapper with a given index. Every index stored in
  \<open>pageWrap\<close> or \<open>timers\<close> is one of a wrapper that \<open>addPage\<close> created; an index
  outside the list changes nothing.
\<close>

definition upd_wrapper :: "nat \<Rightarrow> (wrapper \<Rightarrow> wrapper) \<Rightarrow> TurnPage \<Rightarrow> TurnPage" where
  "upd_wrapper wid f s =
     (if wid < length (wrappers s) then s\<lparr>wrappers := (wrappers s)[wid := f (wrappers s ! wid)]\<rparr>
      else s)"

definition dispatchEvent :: "turn_event \<Rightarrow> TurnPage \<Rightarrow> TurnPage" where
  "dispatchEvent ev s = s\<lparr>events := events s @ [ev]\<rparr>"

definition getEventPoint :: "TurnPage \<Rightarrow> pointer_event \<Rightarrow> Point2D" where
  "getEventPoint s e =
     (case e of
        TouchEvent touches \<Rightarrow>
          (case touches of
             [] \<Rightarrow> \<lparr>px = 0, py = 0\<rparr>
           | touch # _ \<Rightarrow> \<lparr>px = fst touch - boundingLeft s, py = snd touch - boundingTop s\<rparr>)
      | MouseEvent clientX clientY \<Rightarrow>
          \<lparr>px = clientX - boundingLeft s, py = clientY - boundingTop s\<rparr>)"

definition turn_detectCorner :: "TurnPage \<Rightarrow> Point2D \<Rightarrow> string option" where
  "turn_detectCorner s p =
     (let width = offsetWidth s; height = offsetHeight s; cornerSize = 50 in
      if py p < cornerSize then
        (if px p < cornerSize then Some ''tl''
         else if px p > width - cornerSize then Some ''tr''
         else None)
      else if py p > height - cornerSize then
        (if px p < cornerSize then Some ''bl''
         else if px p > width - cornerSize then Some ''br''
         else None)
      else None)"

definition getPageWidth :: "TurnPage \<Rightarrow> real" where
  "getPageWidth s = (if display s = ''double'' then offsetWidth s / 2 else offsetWidth s)"

definition view :: "TurnPage \<Rightarrow> int list" where
  "view s =
     (let pg = page_or (page s) 1 in
      if display s = ''double'' then
        (if js_rem pg 2 \<noteq> 0 then [pg, pg + 1] else [pg - 1, pg])
      else [pg])"

definition addPage :: "nat option \<Rightarrow> int option \<Rightarrow> TurnPage \<Rightarrow> TurnPage" where
  "addPage element pg_opt s =
     (case element of
        None \<Rightarrow> s
      | Some el \<Rightarrow>
          (let pg = int_or pg_opt (totalPages s + 1);
               s1 = (if pg > totalPages s then s\<lparr>totalPages := pg\<rparr> else s);
               wid = length (wrappers s1);
               pageWrapper =
                 \<lparr>w_width = getPageWidth s1, w_height = offsetHeight s1, w_visibility = None,
                  w_top = None, w_left = None, w_right = None, w_bottom = None,
                  w_zIndex = None, w_transformOrigin = None, w_transform = NotSet,
                  w_transition = None, w_child = el, w_attached = True\<rparr>
           in s1\<lparr>elems := (elems s1)
                     (el := \<lparr>e_width = Some (getPageWidth s1), e_height = Some (offsetHeight s1)\<rparr>),
                   pageObjs := obj_set pg el (pageObjs s1),
                   pageWrap := obj_set pg wid (pageWrap s1),
                   pagePlace := obj_set pg pg (pagePlace s1),
                   wrappers := wrappers s1 @ [pageWrapper]\<rparr>))"

text \<open>The body of the loop of \<open>updatePagesPosition\<close>, for one page number.\<close>

definition placePage :: "int list \<Rightarrow> int \<Rightarrow> TurnPage \<Rightarrow> TurnPage" where
  "placePage v pg s =
     (case map_of (pageWrap s) pg of
        None \<Rightarrow> s
      | Some wid \<Rightarrow>
          if pg \<in> set v then
            (let index = (if display s = ''double'' then js_rem pg 2 else 0) in
             case pagePositions index of
               None \<Rightarrow> s
             | Some position \<Rightarrow>
                 upd_wrapper wid
                   (\<lambda>w. w\<lparr>w_visibility := Some Visible,
                          w_top := Some (Px (pos_top position)),
                          w_left := Some (pos_left position),
                          w_right := Some (pos_right position),
                          w_bottom := Some (pos_bottom position)\<rparr>) s)
          else upd_wrapper wid (\<lambda>w. w\<lparr>w_visibility := Some Hidden\<rparr>) s)"

definition updatePagesPosition :: "TurnPage \<Rightarrow> TurnPage" where
  "updatePagesPosition s = fold (placePage (view s)) [1..totalPages s] s"

text \<open>The block of \<open>setDisplay\<close> that resizes the page wrappers and the page elements.\<close>

definition resizePages :: "real \<Rightarrow> TurnPage \<Rightarrow> TurnPage" where
  "resizePages width s =
     (let s1 = fold (\<lambda>wid. upd_wrapper wid (\<lambda>w. w\<lparr>w_width := width\<rparr>))
                 (map snd (pageWrap s)) s
      in s1\<lparr>elems :=
             fold (\<lambda>el m. m(el := (m el)\<lparr>e_width := Some width\<rparr>))
               (map snd (pageObjs s1)) (elems s1)\<rparr>)"

definition setDisplay :: "string \<Rightarrow> TurnPage \<Rightarrow> error option \<times> TurnPage" where
  "setDisplay d s =
     (if d \<notin> set displays then (Some (InvalidDisplayMode d), s)
      else if display s = d then (None, s)
      else
        (let previousDisplay = display s;
             s1 = s\<lparr>display := d\<rparr>;
             s2 = (if done_flag s1
                   then updatePagesPosition (resizePages (getPageWidth s1) s1)
                   else s1)
         in (None, dispatchEvent (displayChanged previousDisplay d) s2)))"

definition setPage :: "page_number \<Rightarrow> TurnPage \<Rightarrow> error option \<times> TurnPage" where
  "setPage pageNumber s =
     (if page_less pageNumber 1 \<or> page_greater pageNumber (totalPages s)
      then (Some (InvalidPageNumber pageNumber), s)
      else if strict_eq (page s) pageNumber then (None, s)
      else
        (let previousPage = page s;
             s1 = updatePagesPosition (s\<lparr>page := pageNumber\<rparr>)
         in (None, dispatchEvent (pageChanged previousPage pageNumber) s1)))"

definition turn_next :: "TurnPage \<Rightarrow> error option \<times> TurnPage" where
  "turn_next s =
     (let nextPage = Max (set (view s)) + 1 in
      if nextPage \<le> totalPages s then setPage (Page nextPage) s else (None, s))"

definition turn_previous :: "TurnPage \<Rightarrow> error option \<times> TurnPage" where
  "turn_previous s =
     (let prevPage = Min (set (view s)) - 1 in
      if prevPage \<ge> 1 then setPage (Page prevPage) s else (None, s))"

text \<open>
  \<open>destroy\<close> removes the wrappers from the document and resets \<open>data\<close>. The listeners it
  asks to remove are not the bound functions that were registered, so the handlers stay
  attached.
\<close>

definition turn_destroy :: "TurnPage \<Rightarrow> TurnPage" where
  "turn_destroy s =
     (let s1 = fold (\<lambda>wid. upd_wrapper wid (\<lambda>w. w\<lparr>w_attached := False\<rparr>))
                 (map snd (pageWrap s)) s
      in s1\<lparr>pageObjs := [], pageWrap := [], pagePlace := [], pageMv := [], totalPages := 0,
            page := Page 1, display := ''double'', disabled := False, done_flag := False\<rparr>)"

definition calculateFoldPosition ::
  "string \<Rightarrow> Point2D \<Rightarrow> real \<Rightarrow> real \<Rightarrow> real \<times> real \<times> real" where
  "calculateFoldPosition c p width height =
     (if c = ''tl'' then
        (let x = px p; y = py p in (x, y, atan2 y x))
      else if c = ''tr'' then
        (let x = (if px p = 0 then width else px p) - width; y = py p in (x, y, atan2 y x))
      else if c = ''bl'' then
        (let x = px p; y = (if py p = 0 then height else py p) - height in (x, y, atan2 y x))
      else if c = ''br'' then
        (let x = (if px p = 0 then width else px p) - width;
             y = (if py p = 0 then height else py p) - height
         in (x, y, atan2 y x))
      else (0, 0, 0))"

definition applyFoldTransform :: "nat \<Rightarrow> real \<times> real \<times> real \<Rightarrow> TurnPage \<Rightarrow> TurnPage" where
  "applyFoldTransform wid foldp s =
     (case foldp of
        (x, y, angle) \<Rightarrow>
          (let rotation = (angle * 180) / pi
           in upd_wrapper wid
                (\<lambda>w. w\<lparr>w_transformOrigin := Some (x, y),
                       w_transform := Rotate rotation (bool_of_opt (l_acceleration (options s)))\<rparr>)
                s))"

definition startFlip :: "string \<Rightarrow> TurnPage \<Rightarrow> TurnPage" where
  "startFlip c s =
     (if disabled s \<or> pageMv s \<noteq> [] then s
      else
        (let v = view s;
             pg = (if CHR ''r'' \<in> set c then hd v else last v)
         in case map_of (pageWrap s) pg of
              None \<Rightarrow> s
            | Some wid \<Rightarrow>
                (let nextPage = (if CHR ''r'' \<in> set c then pg + 1 else pg - 1) in
                 if nextPage < 1 \<or> nextPage > totalPages s then s
                 else
                   (let s1 = s\<lparr>pageMv := [pg]\<rparr>;
                        s2 = upd_wrapper wid
                               (\<lambda>w. w\<lparr>w_zIndex := Some (totalPages s1),
                                      w_visibility := Some Visible\<rparr>) s1;
                        width = getPageWidth s2;
                        height = offsetHeight s2;
                        initialFold = calculateFoldPosition c \<lparr>px = 0, py = 0\<rparr> width height;
                        s3 = applyFoldTransform wid initialFold s2
                    in dispatchEvent (flipStart pg c) s3))))"

text \<open>
  The progress of the \<open>flipMove\<close> notification is a quotient by the page width; for a
  width of 0 JavaScript yields \<open>Infinity\<close> or \<open>NaN\<close>, the model yields 0.
\<close>

definition turn_updateFlip :: "Point2D \<Rightarrow> TurnPage \<Rightarrow> TurnPage" where
  "turn_updateFlip p s =
     (case pageMv s of
        [] \<Rightarrow> s
      | pg # _ \<Rightarrow>
          (case map_of (pageWrap s) pg of
             None \<Rightarrow> s
           | Some wid \<Rightarrow>
               (let width = getPageWidth s; height = offsetHeight s in
                case turn_detectCorner s p of
                  None \<Rightarrow> s
                | Some c \<Rightarrow>
                    (let foldp = calculateFoldPosition c p width height;
                         s1 = applyFoldTransform wid foldp s
                     in dispatchEvent (flipMove pg (\<bar>fst foldp\<bar> / width)) s1))))"

definition turn_completeFlip :: "TurnPage \<Rightarrow> TurnPage" where
  "turn_completeFlip s =
     (case pageMv s of
        [] \<Rightarrow> s
      | pg # _ \<Rightarrow>
          (case map_of (pageWrap s) pg of
             None \<Rightarrow> s
           | Some wid \<Rightarrow>
               (let duration = num_or (l_duration (options s)) 600;
                    s1 = upd_wrapper wid
                           (\<lambda>w. w\<lparr>w_transition := Some duration, w_transform := NoneValue\<rparr>) s;
                    nextPage =
                      (if display s1 = ''double'' then
                         (if js_rem pg 2 = 0 then pg - 1 else pg + 1)
                       else pg);
                    s2 = (if nextPage \<ge> 1 \<and> nextPage \<le> totalPages s1
                          then snd (setPage (Page nextPage) s1) else s1);
                    s3 = s2\<lparr>pageMv := [], timers := timers s2 @ [wid]\<rparr>
                in dispatchEvent (flipComplete pg) s3)))"

definition turn_timer_fired :: "TurnPage \<Rightarrow> TurnPage" where
  "turn_timer_fired s =
     (case timers s of
        [] \<Rightarrow> s
      | wid # rest \<Rightarrow> upd_wrapper wid (\<lambda>w. w\<lparr>w_transition := None\<rparr>) (s\<lparr>timers := rest\<rparr>))"

definition turn_handleStart :: "pointer_event \<Rightarrow> TurnPage \<Rightarrow> TurnPage" where
  "turn_handleStart e s =
     (if disabled s then s
      else
        (case turn_detectCorner s (getEventPoint s e) of
           None \<Rightarrow> s
         | Some c \<Rightarrow> startFlip c s))"

definition turn_handleMove :: "pointer_event \<Rightarrow> TurnPage \<Rightarrow> TurnPage" where
  "turn_handleMove e s =
     (if disabled s \<or> pageMv s = [] then s else turn_updateFlip (getEventPoint s e) s)"

definition turn_handleEnd :: "TurnPage \<Rightarrow> TurnPage" where
  "turn_handleEnd s = (if disabled s \<or> pageMv s = [] then s else turn_completeFlip s)"

text \<open>
  The constructor with \<open>initialize\<close>. The host element's dimensions and bounding
  rectangle, the 3D capability and the touch capability come from the environment;
  \<open>children\<close> are the element's children. When \<open>setDisplay\<close> or \<open>setPage\<close> fails, the
  constructor fails with the state reached so far (the handlers are registered before).
\<close>

definition TurnPage_new ::
  "real \<Rightarrow> real \<Rightarrow> real \<Rightarrow> real \<Rightarrow> bool \<Rightarrow> bool \<Rightarrow> LeafOptions \<Rightarrow> nat list
     \<Rightarrow> error option \<times> TurnPage" where
  "TurnPage_new width height bleft btop has3d touch opt children =
     (let s0 =
            \<lparr>options = opt, offsetWidth = width, offsetHeight = height,
             boundingLeft = bleft, boundingTop = btop, element_transform = None,
             pageObjs = [], pageWrap = [], pagePlace = [], pageMv = [], totalPages = 0,
             page = Page (int_or (l_page opt) 1),
             display = str_or (l_display opt) ''double'',
             disabled = False, done_flag = False, wrappers = [],
             elems = (\<lambda>_. \<lparr>e_width = None, e_height = None\<rparr>), events = [], timers = []\<rparr>
      in case setDisplay (str_or (l_display opt) ''double'') s0 of
           (Some err, s1) \<Rightarrow> (Some err, s1)
         | (None, s1) \<Rightarrow>
             (let s2 = (if has3d \<and> \<not> touch \<and> bool_of_opt (l_acceleration opt)
                        then s1\<lparr>element_transform := Some ''translate3d(0px, 0px, 0px)''\<rparr>
                        else s1);
                  s3 = fold (\<lambda>(i, child). addPage (Some child) (Some (int i + 1)))
                         (enumerate 0 children) s2
              in case setPage (Page (int_or (l_page opt) 1)) s3 of
                   (Some err, s4) \<Rightarrow> (Some err, s4)
                 | (None, s4) \<Rightarrow> (None, s4\<lparr>done_flag := True\<rparr>)))"

text \<open>
  What can happen to a constructed engine: a call of a public method, an event that runs
  a handler, a timer callback, and a change of the host element's layout.
\<close>

datatype turn_action =
    AddPage "nat option" "int option"
  | SetDisplay string
  | SetPage page_number
  | Next
  | Previous
  | Destroy
  | HandleStart pointer_event
  | HandleMove pointer_event
  | HandleEnd
  | TimerFired
  | Layout real real real real

fun turn_step :: "turn_action \<Rightarrow> TurnPage \<Rightarrow> TurnPage" where
  "turn_step (AddPage el pg) s = addPage el pg s"
| "turn_step (SetDisplay d) s = snd (setDisplay d s)"
| "turn_step (SetPage n) s = snd (setPage n s)"
| "turn_step Next s = snd (turn_next s)"
| "turn_step Previous s = snd (turn_previous s)"
| "turn_step Destroy s = turn_destroy s"
| "turn_step (HandleStart e) s = turn_handleStart e s"
| "turn_step (HandleMove e) s = turn_handleMove e s"
| "turn_step HandleEnd s = turn_handleEnd s"
| "turn_step TimerFired s = turn_timer_fired s"
| "turn_step (Layout w h l t) s =
     s\<lparr>offsetWidth := w, offsetHeight := h, boundingLeft := l, boundingTop := t\<rparr>"

inductive turn_reachable :: "TurnPage \<Rightarrow> bool" where
  reach_new:
    "turn_reachable (snd (TurnPage_new width height bleft btop has3d touch opt children))"
| reach_step: "turn_reachable s \<Longrightarrow> turn_reachable (turn_step a s)"

text \<open>
  A book of four pages, 800 by 600 pixels, with the default options and the given display
  mode; \<open>book_backward\<close> is such a book whose options name the \<open>backward\<close> corners.
\<close>

definition book4 :: "string \<Rightarrow> TurnPage" where
  "book4 d =
     snd (TurnPage_new 800 600 0 0 True False (defaultLeafOptions\<lparr>l_display := Some d\<rparr>)
            [0, 1, 2, 3])"

definition book_backward :: TurnPage where
  "book_backward =
     snd (TurnPage_new 800 600 0 0 True False
            (defaultLeafOptions\<lparr>l_corners := Some [(''backward'', [''bl'', ''tl''])]\<rparr>)
            [0, 1, 2, 3])"

section \<open>Properties of Utils\<close>

lemma field_split:
  "CHR '','' \<notin> set a \<Longrightarrow> CHR '','' \<notin> set b \<Longrightarrow> a @ CHR '','' # r = b @ CHR '','' # r'
     \<Longrightarrow> a = b \<and> r = r'"
proof (induction a arbitrary: b)
  case Nil
  then show ?case by (cases b) auto
next
  case (Cons c a)
  then show ?case by (cases b) auto
qed

lemma joinc_inj:
  "length xs = length ys \<Longrightarrow> \<forall>a \<in> set xs \<union> set ys. CHR '','' \<notin> set a \<Longrightarrow>
   joinc xs = joinc ys \<Longrightarrow> xs = ys"
proof (induction xs ys rule: list_induct2)
  case Nil
  then show ?case by simp
next
  case (Cons a xs b ys)
  show ?case
  proof (cases xs)
    case Nil
    with Cons show ?thesis by simp
  next
    case (Cons a' xs')
    then obtain b' ys' where ys: "ys = b' # ys'" using Cons.hyps by (cases ys) auto
    from Cons.prems have "a @ CHR '','' # joinc xs = b @ CHR '','' # joinc ys"
      by (simp add: Cons ys)
    moreover have "CHR '','' \<notin> set a" "CHR '','' \<notin> set b" using Cons.prems by auto
    ultimately have "a = b" "joinc xs = joinc ys" using field_split by blast+
    with Cons.IH Cons.prems show ?thesis by auto
  qed
qed

lemma bezier_key_joinc:
  "bezier_key fmt p1 p2 p3 p4 t = joinc (map fmt (bezier_args p1 p2 p3 p4 t))"
  by (simp add: bezier_key_def bezier_args_def)

lemma bezier_key_inj:
  assumes inj: "inj_on fmt D"
    and nc: "\<forall>v\<in>D. CHR '','' \<notin> set (fmt v)"
    and a: "set (bezier_args p1 p2 p3 p4 t) \<subseteq> D"
    and b: "set (bezier_args q1 q2 q3 q4 u) \<subseteq> D"
    and k: "bezier_key fmt p1 p2 p3 p4 t = bezier_key fmt q1 q2 q3 q4 u"
  shows "bezier_args p1 p2 p3 p4 t = bezier_args q1 q2 q3 q4 u"
proof -
  let ?xs = "bezier_args p1 p2 p3 p4 t" and ?ys = "bezier_args q1 q2 q3 q4 u"
  have "map fmt ?xs = map fmt ?ys"
  proof (rule joinc_inj)
    show "length (map fmt ?xs) = length (map fmt ?ys)" by (simp add: bezier_args_def)
    show "\<forall>a\<in>set (map fmt ?xs) \<union> set (map fmt ?ys). CHR '','' \<notin> set a"
      using nc a b by auto
    show "joinc (map fmt ?xs) = joinc (map fmt ?ys)"
      using k by (simp only: bezier_key_joinc)
  qed
  moreover have "inj_on fmt (set ?xs \<union> set ?ys)"
    using inj a b by (auto intro: inj_on_subset)
  ultimately show ?thesis by (rule inj_on_map_eq_map [THEN iffD1, rotated])
qed

lemma bezier_args_eq:
  "bezier_args p1 p2 p3 p4 t = bezier_args q1 q2 q3 q4 u \<Longrightarrow>
   p1 = q1 \<and> p2 = q2 \<and> p3 = q3 \<and> p4 = q4 \<and> t = u"
  for p1 :: Point2D
  by (simp add: bezier_args_def)

lemma bezier_miss:
  "entries m (bezier_key fmt p1 p2 p3 p4 t) = None \<Longrightarrow>
   bezier fmt m p1 p2 p3 p4 t =
     (length (objects m),
      m\<lparr>objects := objects m @ [bezier_direct p1 p2 p3 p4 t],
        entries := (entries m)(bezier_key fmt p1 p2 p3 p4 t \<mapsto> length (objects m))\<rparr>)"
  by (simp add: bezier_def bezier_direct_def Let_def power3_eq_cube power2_eq_square mult.assoc)

lemma bezier_hit:
  "entries m (bezier_key fmt p1 p2 p3 p4 t) = Some r \<Longrightarrow> bezier fmt m p1 p2 p3 p4 t = (r, m)"
  by (simp add: bezier_def)

lemma memo_inv_lookup:
  assumes "inj_on fmt D" "\<forall>v\<in>D. CHR '','' \<notin> set (fmt v)" "memo_inv fmt D m"
    "set (bezier_args p1 p2 p3 p4 t) \<subseteq> D" "entries m (bezier_key fmt p1 p2 p3 p4 t) = Some r"
  shows "deref m r = Some (bezier_direct p1 p2 p3 p4 t)"
proof -
  from assms(3,5) obtain q1 q2 q3 q4 u where
    r: "r < length (objects m)" and
    q: "set (bezier_args q1 q2 q3 q4 u) \<subseteq> D"
      "bezier_key fmt p1 p2 p3 p4 t = bezier_key fmt q1 q2 q3 q4 u"
      "objects m ! r = bezier_direct q1 q2 q3 q4 u"
    unfolding memo_inv_def by blast
  from bezier_key_inj [OF assms(1,2,4) q(1,2)]
  have "p1 = q1 \<and> p2 = q2 \<and> p3 = q3 \<and> p4 = q4 \<and> t = u" by (rule bezier_args_eq)
  with q(3) r show ?thesis by (simp add: deref_def)
qed

lemma bezier_point_direct:
  assumes "inj_on fmt D" "\<forall>v\<in>D. CHR '','' \<notin> set (fmt v)" "memo_inv fmt D m"
    "set (bezier_args p1 p2 p3 p4 t) \<subseteq> D"
  shows "bezier_point fmt m p1 p2 p3 p4 t = Some (bezier_direct p1 p2 p3 p4 t)"
proof (cases "entries m (bezier_key fmt p1 p2 p3 p4 t)")
  case None
  then show ?thesis by (simp add: bezier_point_def bezier_miss deref_def)
next
  case (Some r)
  with memo_inv_lookup [OF assms Some] show ?thesis by (simp add: bezier_point_def bezier_hit)
qed

lemma memo_inv_bezier:
  assumes "inj_on fmt D" "\<forall>v\<in>D. CHR '','' \<notin> set (fmt v)" "memo_inv fmt D m"
    "set (bezier_args p1 p2 p3 p4 t) \<subseteq> D"
  shows "memo_inv fmt D (snd (bezier fmt m p1 p2 p3 p4 t))"
proof (cases "entries m (bezier_key fmt p1 p2 p3 p4 t)")
  case None
  let ?key = "bezier_key fmt p1 p2 p3 p4 t"
  let ?m' = "m\<lparr>objects := objects m @ [bezier_direct p1 p2 p3 p4 t],
                entries := (entries m)(?key \<mapsto> length (objects m))\<rparr>"
  have "memo_inv fmt D ?m'"
    unfolding memo_inv_def
  proof (intro allI impI)
    fix k r
    assume kr: "entries ?m' k = Some r"
    show "r < length (objects ?m') \<and>
          (\<exists>p1 p2 p3 p4 t. set (bezier_args p1 p2 p3 p4 t) \<subseteq> D \<and>
             k = bezier_key fmt p1 p2 p3 p4 t \<and> objects ?m' ! r = bezier_direct p1 p2 p3 p4 t)"
    proof (cases "k = ?key")
      case True
      with kr have r: "r = length (objects m)" by simp
      then have o: "objects ?m' ! r = bezier_direct p1 p2 p3 p4 t" by simp
      have l: "r < length (objects ?m')" using r by simp
      from True o assms(4) have
        "\<exists>q1 q2 q3 q4 u. set (bezier_args q1 q2 q3 q4 u) \<subseteq> D \<and>
           k = bezier_key fmt q1 q2 q3 q4 u \<and> objects ?m' ! r = bezier_direct q1 q2 q3 q4 u"
        by blast
      with l show ?thesis by blast
    next
      case False
      with kr have old: "entries m k = Some r" by simp
      with assms(3) obtain q1 q2 q3 q4 u where
        r: "r < length (objects m)" and
        q: "set (bezier_args q1 q2 q3 q4 u) \<subseteq> D" "k = bezier_key fmt q1 q2 q3 q4 u"
          "objects m ! r = bezier_direct q1 q2 q3 q4 u"
        unfolding memo_inv_def by blast
      from r q(3) have o: "objects ?m' ! r = bezier_direct q1 q2 q3 q4 u"
        by (simp add: nth_append)
      have l: "r < length (objects ?m')" using r by simp
      from q(1,2) o have
        "\<exists>q1 q2 q3 q4 u. set (bezier_args q1 q2 q3 q4 u) \<subseteq> D \<and>
           k = bezier_key fmt q1 q2 q3 q4 u \<and> objects ?m' ! r = bezier_direct q1 q2 q3 q4 u"
        by blast
      with l show ?thesis by blast
    qed
  qed
  with None show ?thesis by (simp add: bezier_miss)
next
  case (Some r)
  with assms(3) show ?thesis by (simp add: bezier_hit)
qed

lemma memo_reachable_inv:
  assumes "inj_on fmt D" "\<forall>v\<in>D. CHR '','' \<notin> set (fmt v)" "memo_reachable fmt D m"
  shows "memo_inv fmt D m"
  using assms(3)
proof induction
  case memo_init
  show ?case by (simp add: memo_inv_def memo_empty_def)
next
  case (memo_bezier m p1 p2 p3 p4 t)
  then show ?case using memo_inv_bezier [OF assms(1,2)] by blast
next
  case (memo_clear m)
  show ?case by (simp add: memo_inv_def clearMemoization_def)
qed

lemma bezier_again:
  "fst (bezier fmt (snd (bezier fmt m p1 p2 p3 p4 t)) p1 p2 p3 p4 t)
     = fst (bezier fmt m p1 p2 p3 p4 t) \<and>
   snd (bezier fmt (snd (bezier fmt m p1 p2 p3 p4 t)) p1 p2 p3 p4 t)
     = snd (bezier fmt m p1 p2 p3 p4 t)"
proof (cases "entries m (bezier_key fmt p1 p2 p3 p4 t)")
  case None
  then show ?thesis by (simp add: bezier_miss bezier_hit)
next
  case (Some r)
  then show ?thesis by (simp add: bezier_hit)
qed

lemma fmt01_inj: "inj_on fmt01 {0, 1}"
  by (simp add: fmt01_def)

lemma fmt01_nocomma: "\<forall>v\<in>{0, 1}. CHR '','' \<notin> set (fmt01 v)"
  by (simp add: fmt01_def)

lemma unit_square_args:
  "set (bezier_args \<lparr>px = 0, py = 0\<rparr> \<lparr>px = 0, py = 1\<rparr> \<lparr>px = 1, py = 1\<rparr> \<lparr>px = 1, py = 0\<rparr> 1)
     \<subseteq> {0, 1}"
  "set (bezier_args \<lparr>px = 0, py = 0\<rparr> \<lparr>px = 0, py = 1\<rparr> \<lparr>px = 1, py = 1\<rparr> \<lparr>px = 1, py = 0\<rparr> 0)
     \<subseteq> {0, 1}"
  by (simp_all add: bezier_args_def)

lemma unit_square_direct:
  "bezier_direct \<lparr>px = 0, py = 0\<rparr> \<lparr>px = 0, py = 1\<rparr> \<lparr>px = 1, py = 1\<rparr> \<lparr>px = 1, py = 0\<rparr> 1
     = \<lparr>px = 1, py = 0\<rparr>"
  "bezier_direct \<lparr>px = 0, py = 0\<rparr> \<lparr>px = 0, py = 1\<rparr> \<lparr>px = 1, py = 1\<rparr> \<lparr>px = 1, py = 0\<rparr> 0
     = \<lparr>px = 0, py = 0\<rparr>"
  by (simp_all add: bezier_direct_def createPoint2D_def math_round_def)

text \<open>
  Claim C10, as amended. The memoization cache of \<open>Utils.bezier\<close> is transparent as long
  as no caller has written to a point that \<open>bezier\<close> returned: at every cache state that
  calls of \<open>bezier\<close> and \<open>clearMemoization\<close> alone produce, \<open>bezier\<close> returns a point equal
  to the direct evaluation of the cubic polynomial, rounded to three decimals by
  \<open>createPoint2D\<close>; a repeated call with equal arguments returns the same object, with
  that same content, and leaves the cache as it is. The number format of the key
  separates the numbers that occur (it is injective on them) and writes no comma.
\<close>

theorem bezier_cache_transparent:
  assumes "inj_on fmt D" and "\<forall>v\<in>D. CHR '','' \<notin> set (fmt v)"
    and "memo_reachable fmt D m" and "set (bezier_args p1 p2 p3 p4 t) \<subseteq> D"
  shows "bezier_point fmt m p1 p2 p3 p4 t = Some (bezier_direct p1 p2 p3 p4 t) \<and>
         fst (bezier fmt (snd (bezier fmt m p1 p2 p3 p4 t)) p1 p2 p3 p4 t)
           = fst (bezier fmt m p1 p2 p3 p4 t) \<and>
         snd (bezier fmt (snd (bezier fmt m p1 p2 p3 p4 t)) p1 p2 p3 p4 t)
           = snd (bezier fmt m p1 p2 p3 p4 t) \<and>
         bezier_point fmt (snd (bezier fmt m p1 p2 p3 p4 t)) p1 p2 p3 p4 t
           = Some (bezier_direct p1 p2 p3 p4 t)"
proof -
  have inv: "memo_inv fmt D m" using assms(1-3) by (rule memo_reachable_inv)
  have inv': "memo_inv fmt D (snd (bezier fmt m p1 p2 p3 p4 t))"
    using assms(1,2) inv assms(4) by (rule memo_inv_bezier)
  show ?thesis
    using bezier_point_direct [OF assms(1,2) inv assms(4)]
      bezier_point_direct [OF assms(1,2) inv' assms(4)] bezier_again [of fmt m p1 p2 p3 p4 t]
    by simp
qed

text \<open>
  The theorem of C10 at the cache that holds the entry of the same call, for control
  points on the unit square.
\<close>

theorem bezier_cache_transparent_witness:
  "inj_on fmt01 {0, 1} \<and> CHR '','' \<notin> set (fmt01 0) \<and> CHR '','' \<notin> set (fmt01 1) \<and>
   memo_reachable fmt01 {0, 1}
     (snd (bezier fmt01 memo_empty \<lparr>px = 0, py = 0\<rparr> \<lparr>px = 0, py = 1\<rparr> \<lparr>px = 1, py = 1\<rparr>
             \<lparr>px = 1, py = 0\<rparr> 1)) \<and>
   set (bezier_args \<lparr>px = 0, py = 0\<rparr> \<lparr>px = 0, py = 1\<rparr> \<lparr>px = 1, py = 1\<rparr> \<lparr>px = 1, py = 0\<rparr> 1)
     \<subseteq> {0, 1} \<and>
   bezier_point fmt01
     (snd (bezier fmt01 memo_empty \<lparr>px = 0, py = 0\<rparr> \<lparr>px = 0, py = 1\<rparr> \<lparr>px = 1, py = 1\<rparr>
             \<lparr>px = 1, py = 0\<rparr> 1))
     \<lparr>px = 0, py = 0\<rparr> \<lparr>px = 0, py = 1\<rparr> \<lparr>px = 1, py = 1\<rparr> \<lparr>px = 1, py = 0\<rparr> 1
     = Some \<lparr>px = 1, py = 0\<rparr>"
proof -
  note a = unit_square_args(1)
  have r: "memo_reachable fmt01 {0, 1}
     (snd (bezier fmt01 memo_empty \<lparr>px = 0, py = 0\<rparr> \<lparr>px = 0, py = 1\<rparr> \<lparr>px = 1, py = 1\<rparr>
             \<lparr>px = 1, py = 0\<rparr> 1))"
    by (rule memo_bezier [OF memo_init a])
  show ?thesis
    using bezier_cache_transparent [OF fmt01_inj fmt01_nocomma r a] fmt01_inj fmt01_nocomma r a
      unit_square_direct(1)
    by simp
qed

text \<open>
  Claim C10 as stated fails: the cache returns the object it holds. After a first call
  and a caller's write of \<open>(42, 0)\<close> to the returned point, a second call with the same
  arguments returns \<open>(42, 0)\<close>, while the direct evaluation is \<open>(1, 0)\<close>.
\<close>

theorem bezier_aliasing_counterexample:
  "fst (bezier fmt01 memo_empty \<lparr>px = 0, py = 0\<rparr> \<lparr>px = 0, py = 1\<rparr> \<lparr>px = 1, py = 1\<rparr>
          \<lparr>px = 1, py = 0\<rparr> 1) = 0 \<and>
   bezier_point fmt01
     (caller_write 0 \<lparr>px = 42, py = 0\<rparr>
        (snd (bezier fmt01 memo_empty \<lparr>px = 0, py = 0\<rparr> \<lparr>px = 0, py = 1\<rparr> \<lparr>px = 1, py = 1\<rparr>
                \<lparr>px = 1, py = 0\<rparr> 1)))
     \<lparr>px = 0, py = 0\<rparr> \<lparr>px = 0, py = 1\<rparr> \<lparr>px = 1, py = 1\<rparr> \<lparr>px = 1, py = 0\<rparr> 1
     = Some \<lparr>px = 42, py = 0\<rparr> \<and>
   bezier_direct \<lparr>px = 0, py = 0\<rparr> \<lparr>px = 0, py = 1\<rparr> \<lparr>px = 1, py = 1\<rparr> \<lparr>px = 1, py = 0\<rparr> 1
     = \<lparr>px = 1, py = 0\<rparr>"
proof -
  let ?key = "bezier_key fmt01 \<lparr>px = 0, py = 0\<rparr> \<lparr>px = 0, py = 1\<rparr> \<lparr>px = 1, py = 1\<rparr>
                \<lparr>px = 1, py = 0\<rparr> 1"
  have first: "bezier fmt01 memo_empty \<lparr>px = 0, py = 0\<rparr> \<lparr>px = 0, py = 1\<rparr> \<lparr>px = 1, py = 1\<rparr>
          \<lparr>px = 1, py = 0\<rparr> 1 =
       (0, \<lparr>objects = [\<lparr>px = 1, py = 0\<rparr>], entries = [?key \<mapsto> 0]\<rparr>)"
    using bezier_miss [of memo_empty fmt01 "\<lparr>px = 0, py = 0\<rparr>" "\<lparr>px = 0, py = 1\<rparr>"
        "\<lparr>px = 1, py = 1\<rparr>" "\<lparr>px = 1, py = 0\<rparr>" 1]
    by (simp add: memo_empty_def unit_square_direct)
  have hit: "entries (caller_write 0 \<lparr>px = 42, py = 0\<rparr>
                 \<lparr>objects = [\<lparr>px = 1, py = 0\<rparr>], entries = [?key \<mapsto> 0]\<rparr>) ?key = Some 0"
    by (simp add: caller_write_def)
  show ?thesis
    unfolding first bezier_point_def
    by (simp add: bezier_hit [OF hit] unit_square_direct) (simp add: caller_write_def deref_def)
qed

lemma bezier_direct_0: "bezier_direct p1 p2 p3 p4 0 = createPoint2D (px p1) (py p1)"
  by (simp add: bezier_direct_def)

lemma bezier_direct_1: "bezier_direct p1 p2 p3 p4 1 = createPoint2D (px p4) (py p4)"
  by (simp add: bezier_direct_def)

text \<open>
  Claim C7, as amended. At \<open>t = 0\<close> the result of \<open>Utils.bezier\<close> is the first control
  point rounded to three decimals by \<open>createPoint2D\<close>, and at \<open>t = 1\<close> it is the last
  control point rounded likewise, at every cache state that calls of \<open>bezier\<close> and
  \<open>clearMemoization\<close> alone produce.
\<close>

theorem bezier_endpoints_rounded:
  assumes "inj_on fmt D" and "\<forall>v\<in>D. CHR '','' \<notin> set (fmt v)"
    and "memo_reachable fmt D m"
    and "set (bezier_args p1 p2 p3 p4 0) \<subseteq> D" and "set (bezier_args p1 p2 p3 p4 1) \<subseteq> D"
  shows "bezier_point fmt m p1 p2 p3 p4 0 = Some (createPoint2D (px p1) (py p1)) \<and>
         bezier_point fmt m p1 p2 p3 p4 1 = Some (createPoint2D (px p4) (py p4))"
proof -
  have inv: "memo_inv fmt D m" using assms(1-3) by (rule memo_reachable_inv)
  show ?thesis
    using bezier_point_direct [OF assms(1,2) inv assms(4)]
      bezier_point_direct [OF assms(1,2) inv assms(5)]
    by (simp add: bezier_direct_0 bezier_direct_1)
qed

text \<open>The theorem of C7 at the empty cache, for control points on the unit square.\<close>

theorem bezier_endpoints_rounded_witness:
  "inj_on fmt01 {0, 1} \<and> CHR '','' \<notin> set (fmt01 0) \<and> CHR '','' \<notin> set (fmt01 1) \<and>
   memo_reachable fmt01 {0, 1} memo_empty \<and>
   set (bezier_args \<lparr>px = 0, py = 0\<rparr> \<lparr>px = 0, py = 1\<rparr> \<lparr>px = 1, py = 1\<rparr> \<lparr>px = 1, py = 0\<rparr> 0)
     \<subseteq> {0, 1} \<and>
   set (bezier_args \<lparr>px = 0, py = 0\<rparr> \<lparr>px = 0, py = 1\<rparr> \<lparr>px = 1, py = 1\<rparr> \<lparr>px = 1, py = 0\<rparr> 1)
     \<subseteq> {0, 1} \<and>
   bezier_point fmt01 memo_empty \<lparr>px = 0, py = 0\<rparr> \<lparr>px = 0, py = 1\<rparr> \<lparr>px = 1, py = 1\<rparr>
     \<lparr>px = 1, py = 0\<rparr> 0 = Some \<lparr>px = 0, py = 0\<rparr> \<and>
   bezier_point fmt01 memo_empty \<lparr>px = 0, py = 0\<rparr> \<lparr>px = 0, py = 1\<rparr> \<lparr>px = 1, py = 1\<rparr>
     \<lparr>px = 1, py = 0\<rparr> 1 = Some \<lparr>px = 1, py = 0\<rparr>"
proof -
  have r: "memo_reachable fmt01 {0, 1} memo_empty" by (rule memo_init)
  have c: "createPoint2D 0 0 = \<lparr>px = 0, py = 0\<rparr>" "createPoint2D 1 0 = \<lparr>px = 1, py = 0\<rparr>"
    by (simp_all add: createPoint2D_def math_round_def)
  show ?thesis
    using bezier_endpoints_rounded [OF fmt01_inj fmt01_nocomma r unit_square_args(2,1)]
      fmt01_inj fmt01_nocomma r unit_square_args c
    by simp
qed

text \<open>
  Claim C7 as stated fails: the first control point \<open>(0.0004, 0)\<close> comes back as
  \<open>(0, 0)\<close> at \<open>t = 0\<close>.
\<close>

theorem bezier_endpoint_counterexample:
  "bezier_point fmt01 memo_empty \<lparr>px = 4 / 10000, py = 0\<rparr> \<lparr>px = 0, py = 0\<rparr>
     \<lparr>px = 0, py = 0\<rparr> \<lparr>px = 0, py = 0\<rparr> 0 = Some \<lparr>px = 0, py = 0\<rparr> \<and>
   bezier_point fmt01 memo_empty \<lparr>px = 4 / 10000, py = 0\<rparr> \<lparr>px = 0, py = 0\<rparr>
     \<lparr>px = 0, py = 0\<rparr> \<lparr>px = 0, py = 0\<rparr> 0 \<noteq> Some \<lparr>px = 4 / 10000, py = 0\<rparr>"
  by (simp add: bezier_point_def bezier_def memo_empty_def deref_def Let_def createPoint2D_def
      math_round_def)

section \<open>Properties of FlipPage\<close>

lemma allowedCorners_backward: "allowedCorners (Some ''backward'') = [''bl'', ''tl'']"
  by (simp add: allowedCorners_def)

lemma detectCorner_allowed:
  "detectCorner s p = Some c \<Longrightarrow> c \<in> set (allowedCorners (f_corners (opts s)))"
  by (auto simp: detectCorner_def Let_def split: option.splits if_splits)

lemma turn_detectCorner_options:
  "turn_detectCorner (t\<lparr>options := opt\<rparr>) q = turn_detectCorner t q"
  by (simp add: turn_detectCorner_def)

lemma turn_detectCorner_tr:
  "py q < 50 \<Longrightarrow> 50 \<le> px q \<Longrightarrow> offsetWidth t - 50 < px q \<Longrightarrow>
   turn_detectCorner t q = Some ''tr''"
  by (simp add: turn_detectCorner_def)

lemma turn_detectCorner_br:
  "50 \<le> py q \<Longrightarrow> offsetHeight t - 50 < py q \<Longrightarrow> 50 \<le> px q \<Longrightarrow> offsetWidth t - 50 < px q \<Longrightarrow>
   turn_detectCorner t q = Some ''br''"
  by (simp add: turn_detectCorner_def)

text \<open>
  Claim C4, as amended. In the single-surface engine, for every pointer position, surface
  size and zone size, corner detection configured with the \<open>backward\<close> preset never
  returns \<open>tr\<close> or \<open>br\<close>: the detected corner, when there is one, is \<open>bl\<close> or \<open>tl\<close>,
  a member of the allowed-corner set. The pagination engine has no allowed-corner policy:
  its detection does not read the options and returns the corner whose zone holds the
  pointer, \<open>tr\<close> and \<open>br\<close> included.
\<close>

theorem backward_corners_flip_only:
  assumes "f_corners (opts s) = Some ''backward''"
  shows "detectCorner s p \<noteq> Some ''tr'' \<and> detectCorner s p \<noteq> Some ''br'' \<and>
         (detectCorner s p = None \<or> detectCorner s p = Some ''bl'' \<or>
          detectCorner s p = Some ''tl'') \<and>
         turn_detectCorner (t\<lparr>options := opt\<rparr>) q = turn_detectCorner t q \<and>
         (py q < 50 \<and> 50 \<le> px q \<and> offsetWidth t - 50 < px q \<longrightarrow>
            turn_detectCorner t q = Some ''tr'') \<and>
         (50 \<le> py q \<and> offsetHeight t - 50 < py q \<and> 50 \<le> px q \<and> offsetWidth t - 50 < px q \<longrightarrow>
            turn_detectCorner t q = Some ''br'')"
proof -
  have mem: "c \<in> {''bl'', ''tl''}" if "detectCorner s p = Some c" for c
    using detectCorner_allowed [OF that] assms by (simp add: allowedCorners_backward)
  have 1: "detectCorner s p \<noteq> Some ''tr''" using mem [of "''tr''"] by auto
  have 2: "detectCorner s p \<noteq> Some ''br''" using mem [of "''br''"] by auto
  have 3: "detectCorner s p = None \<or> detectCorner s p = Some ''bl'' \<or>
          detectCorner s p = Some ''tl''"
  proof (cases "detectCorner s p")
    case None
    then show ?thesis by simp
  next
    case (Some c)
    with mem [OF Some] show ?thesis by auto
  qed
  show ?thesis
    using 1 2 3 turn_detectCorner_options turn_detectCorner_tr turn_detectCorner_br by blast
qed

lemma flip_demo_simps:
  "opts (flip_demo cs) = defaultFlipOptions\<lparr>f_corners := Some cs\<rparr>"
  "elementWidth (flip_demo cs) = 400" "elementHeight (flip_demo cs) = 300"
  "rectLeft (flip_demo cs) = 0" "rectTop (flip_demo cs) = 0"
  "point (flip_demo cs) = None" "isTurning (flip_demo cs) = False"
  "isDisabled (flip_demo cs) = False" "fpage_transition (flip_demo cs) = None"
  "flip_timers (flip_demo cs) = 0" "shadow (flip_demo cs) = Some None"
  "fpage_transform (flip_demo cs) = Unset" "flip_events (flip_demo cs) = []"
  by (simp_all add: flip_demo_def resize_def Let_def)

lemma flip_demo_constructed:
  "FlipPage_new True 400 300 0 0 (defaultFlipOptions\<lparr>f_corners := Some cs\<rparr>)
     = Inr (flip_demo cs)"
  by (simp add: FlipPage_new_def flip_demo_def defaultFlipOptions_def bool_of_opt_def)

lemma flip_demo_tl:
  "detectCorner (flip_demo ''backward'') \<lparr>px = 10, py = 10\<rparr> = Some ''tl''"
  by (simp add: detectCorner_def flip_demo_simps defaultFlipOptions_def allowedCorners_def Let_def)

text \<open>
  The theorem of C4 on a 400 by 300 surface with the \<open>backward\<close> corners: the top-left
  zone is detected, the top-right zone is not.
\<close>

theorem backward_corners_flip_only_witness:
  "f_corners (opts (flip_demo ''backward'')) = Some ''backward'' \<and>
   detectCorner (flip_demo ''backward'') \<lparr>px = 10, py = 10\<rparr> = Some ''tl'' \<and>
   detectCorner (flip_demo ''backward'') \<lparr>px = 390, py = 10\<rparr> \<noteq> Some ''tr''"
proof -
  have c: "f_corners (opts (flip_demo ''backward'')) = Some ''backward''"
    by (simp add: flip_demo_simps)
  show ?thesis
    using backward_corners_flip_only [OF c, of "\<lparr>px = 390, py = 10\<rparr>"] c flip_demo_tl by simp
qed

subsection \<open>The programmatic flip\<close>

lemma atan2_origin: "atan2 0 0 = 0"
  by (simp add: atan2_def)

lemma handleStart_turning: "isTurning s \<Longrightarrow> handleStart e s = s"
  by (simp add: handleStart_def)

lemma flip_turning: "isTurning s \<Longrightarrow> flip c s = s"
  by (simp add: flip_def)

lemma applyTransform_fields:
  "point (applyTransform foldp angle s) = point s"
  "isTurning (applyTransform foldp angle s) = isTurning s"
  "isDisabled (applyTransform foldp angle s) = isDisabled s"
  "fpage_transition (applyTransform foldp angle s) = fpage_transition s"
  "flip_timers (applyTransform foldp angle s) = flip_timers s"
  "flip_events (applyTransform foldp angle s) = flip_events s"
  "opts (applyTransform foldp angle s) = opts s"
  "fpage_transform (applyTransform foldp angle s) =
     (if bool_of_opt (f_acceleration (opts s))
      then Matrix3d (flip_matrix foldp angle @ [0, 0, 0, 0, 1])
      else Matrix (flip_matrix foldp angle))"
  by (simp_all add: applyTransform_def Let_def)

lemma flip_valid:
  assumes "getDefaultCornerPoint s c = Some p" and "\<not> isDisabled s" and "\<not> isTurning s"
  shows "flip c s =
     applyTransform
       \<lparr>px = elementWidth s - cos (if take 1 c = ''b'' then pi else 0) * elementWidth s,
        py = elementHeight s - sin (if take 1 c = ''b'' then pi else 0) * elementHeight s\<rparr>
       (if take 1 c = ''b'' then pi else 0)
       (s\<lparr>point := Some \<lparr>px = px p, py = py p, corner = c\<rparr>, isTurning := True\<rparr>)"
  using assms by (simp add: flip_def updateFlip_def Let_def atan2_origin)

lemma handleEnd_turning:
  assumes "isTurning s" and "point s \<noteq> None"
  shows "isTurning (handleEnd s) = False" "point (handleEnd s) = None"
    "fpage_transform (handleEnd s) = TransformNone"
    "fpage_transition (handleEnd s) = Some (num_or (f_duration (opts s)) 600)"
    "flip_timers (handleEnd s) = Suc (flip_timers s)"
    "flip_events (handleEnd s) = flip_events s @ [flipend]"
  using assms by (auto simp: handleEnd_def completeFlip_def Let_def)

text \<open>
  Claim C5, on the code. \<open>FlipPage.flip(corner)\<close> with a valid corner, on an engine that
  is neither disabled nor turning, stores the corner's own point as the start of the
  session, sets \<open>isTurning\<close> and runs the fold update with that same point as the
  current point. It does not run the settle path: the transition, the timers and the
  events are as before the call and the engine stays turning, so that a subsequent flip
  or start is ignored. The settle path of a pointer drag, \<open>handleEnd\<close>, is what closes
  the session.
\<close>

theorem flip_leaves_session_open:
  assumes "c = ''tl'' \<or> c = ''tr'' \<or> c = ''bl'' \<or> c = ''br''"
    and "\<not> isDisabled s" and "\<not> isTurning s"
  shows "(\<exists>p. getDefaultCornerPoint s c = Some p \<and>
            px p = (if c = ''tr'' \<or> c = ''br'' then elementWidth s else 0) \<and>
            py p = (if c = ''bl'' \<or> c = ''br'' then elementHeight s else 0) \<and>
            point (flip c s) = Some \<lparr>px = px p, py = py p, corner = c\<rparr> \<and>
            flip c s = updateFlip p
              (s\<lparr>point := Some \<lparr>px = px p, py = py p, corner = c\<rparr>, isTurning := True\<rparr>)) \<and>
         isTurning (flip c s) \<and>
         fpage_transform (flip c s) \<noteq> TransformNone \<and>
         fpage_transition (flip c s) = fpage_transition s \<and>
         flip_timers (flip c s) = flip_timers s \<and>
         flip_events (flip c s) = flip_events s \<and>
         flip c' (flip c s) = flip c s \<and>
         handleStart e (flip c s) = flip c s \<and>
         isTurning (handleEnd (flip c s)) = False \<and>
         point (handleEnd (flip c s)) = None \<and>
         fpage_transform (handleEnd (flip c s)) = TransformNone \<and>
         flip_timers (handleEnd (flip c s)) = Suc (flip_timers s)"
proof -
  define p where
    "p = \<lparr>px = (if c = ''tr'' \<or> c = ''br'' then elementWidth s else 0),
          py = (if c = ''bl'' \<or> c = ''br'' then elementHeight s else 0)\<rparr>"
  have gp: "getDefaultCornerPoint s c = Some p"
    using assms(1) by (auto simp: getDefaultCornerPoint_def p_def Let_def)
  note f = flip_valid [OF gp assms(2,3)]
  have pt: "point (flip c s) = Some \<lparr>px = px p, py = py p, corner = c\<rparr>"
    unfolding f by (simp add: applyTransform_fields)
  have fl: "flip c s = updateFlip p
             (s\<lparr>point := Some \<lparr>px = px p, py = py p, corner = c\<rparr>, isTurning := True\<rparr>)"
    using gp assms(2,3) by (simp add: flip_def)
  have 1: "\<exists>p. getDefaultCornerPoint s c = Some p \<and>
           px p = (if c = ''tr'' \<or> c = ''br'' then elementWidth s else 0) \<and>
           py p = (if c = ''bl'' \<or> c = ''br'' then elementHeight s else 0) \<and>
           point (flip c s) = Some \<lparr>px = px p, py = py p, corner = c\<rparr> \<and>
           flip c s = updateFlip p
             (s\<lparr>point := Some \<lparr>px = px p, py = py p, corner = c\<rparr>, isTurning := True\<rparr>)"
    using gp pt fl by (intro exI [of _ p]) (simp add: p_def)
  have t: "isTurning (flip c s)"
    unfolding f by (simp add: applyTransform_fields)
  have 3: "fpage_transform (flip c s) \<noteq> TransformNone"
    unfolding f by (simp add: applyTransform_fields)
  have 4: "fpage_transition (flip c s) = fpage_transition s"
    and 5: "flip_timers (flip c s) = flip_timers s"
    and 6: "flip_events (flip c s) = flip_events s"
    unfolding f by (simp_all add: applyTransform_fields)
  have 7: "flip c' (flip c s) = flip c s" using t by (rule flip_turning)
  have 8: "handleStart e (flip c s) = flip c s" using t by (rule handleStart_turning)
  have pn: "point (flip c s) \<noteq> None" using pt by simp
  have 9: "isTurning (handleEnd (flip c s)) = False"
    and 10: "point (handleEnd (flip c s)) = None"
    and 11: "fpage_transform (handleEnd (flip c s)) = TransformNone"
    using handleEnd_turning [OF t pn] by simp_all
  have 12: "flip_timers (handleEnd (flip c s)) = Suc (flip_timers s)"
    using handleEnd_turning(5) [OF t pn] 5 by simp
  show ?thesis
    by (intro conjI) (fact 1 t 3 4 5 6 7 8 9 10 11 12)+
qed

text \<open>
  The theorem of C5 on the 400 by 300 surface with the default options: after
  \<open>flip('tr')\<close> the engine is turning from the point \<open>(400, 0)\<close>, no settle has run, and
  a flip or a start in an allowed corner zone is ignored, although the same start is
  accepted by the idle engine.
\<close>

theorem flip_leaves_session_open_witness:
  "\<not> isDisabled (flip_demo ''forward'') \<and> \<not> isTurning (flip_demo ''forward'') \<and>
   isTurning (flip ''tr'' (flip_demo ''forward'')) \<and>
   point (flip ''tr'' (flip_demo ''forward'')) = Some \<lparr>px = 400, py = 0, corner = ''tr''\<rparr> \<and>
   fpage_transform (flip ''tr'' (flip_demo ''forward'')) \<noteq> TransformNone \<and>
   fpage_transition (flip ''tr'' (flip_demo ''forward'')) = None \<and>
   flip_timers (flip ''tr'' (flip_demo ''forward'')) = 0 \<and>
   flip ''br'' (flip ''tr'' (flip_demo ''forward'')) = flip ''tr'' (flip_demo ''forward'') \<and>
   handleStart (MouseEvent 390 10) (flip ''tr'' (flip_demo ''forward''))
     = flip ''tr'' (flip_demo ''forward'') \<and>
   handleStart (MouseEvent 390 10) (flip_demo ''forward'') \<noteq> flip_demo ''forward'' \<and>
   isTurning (handleEnd (flip ''tr'' (flip_demo ''forward''))) = False"
proof -
  have d: "\<not> isDisabled (flip_demo ''forward'')" "\<not> isTurning (flip_demo ''forward'')"
    by (simp_all add: flip_demo_simps)
  have c: "''tr'' = ''tl'' \<or> ''tr'' = ''tr'' \<or> ''tr'' = ''bl'' \<or> ''tr'' = ''br''" by simp
  have dc: "detectCorner (flip_demo ''forward'') \<lparr>px = 390, py = 10\<rparr> = Some ''tr''"
    by (simp add: detectCorner_def flip_demo_simps defaultFlipOptions_def allowedCorners_def
        Let_def)
  have "isTurning (handleStart (MouseEvent 390 10) (flip_demo ''forward''))"
    using dc by (simp add: handleStart_def getPoint_def flip_demo_simps Let_def)
  then have 8: "handleStart (MouseEvent 390 10) (flip_demo ''forward'') \<noteq> flip_demo ''forward''"
    using d(2) by auto
  show ?thesis
    using flip_leaves_session_open [OF c d, of "''br''" "MouseEvent 390 10"] d 8
    by (auto simp: flip_demo_simps)
qed

subsection \<open>The accelerated transform\<close>

text \<open>
  Claim C8, on the code: with acceleration the transform written is \<open>matrix3d\<close> with
  eleven numbers, the six of the 2D matrix followed by \<open>0, 0, 0, 0, 1\<close>. It is not a
  matrix of sixteen entries and it is not the 4x4 extension of the 2D matrix.
\<close>

theorem applyTransform_matrix3d_eleven:
  assumes "bool_of_opt (f_acceleration (opts s))"
  shows "fpage_transform (applyTransform foldp angle s) =
           Matrix3d [cos angle, sin angle, - sin angle, cos angle, px foldp, py foldp,
                     0, 0, 0, 0, 1] \<and>
         \<not> transform_wellformed (fpage_transform (applyTransform foldp angle s)) \<and>
         fpage_transform (applyTransform foldp angle s)
           \<noteq> Matrix3d (matrix3d_of_2d (flip_matrix foldp angle)) \<and>
         transform_wellformed (Matrix3d (matrix3d_of_2d (flip_matrix foldp angle)))"
  using assms
  by (simp add: applyTransform_fields flip_matrix_def transform_wellformed_def
      matrix3d_of_2d_def)

text \<open>The theorem of C8 with the default options, at the fold point \<open>(0, 0)\<close> and angle 0.\<close>

theorem applyTransform_matrix3d_eleven_witness:
  "bool_of_opt (f_acceleration (opts (flip_demo ''forward''))) \<and>
   fpage_transform (applyTransform \<lparr>px = 0, py = 0\<rparr> 0 (flip_demo ''forward''))
     = Matrix3d [1, 0, 0, 1, 0, 0, 0, 0, 0, 0, 1] \<and>
   \<not> transform_wellformed
        (fpage_transform (applyTransform \<lparr>px = 0, py = 0\<rparr> 0 (flip_demo ''forward'')))"
proof -
  have a: "bool_of_opt (f_acceleration (opts (flip_demo ''forward'')))"
    by (simp add: flip_demo_simps defaultFlipOptions_def bool_of_opt_def)
  show ?thesis
    using applyTransform_matrix3d_eleven [OF a, of "\<lparr>px = 0, py = 0\<rparr>" 0] a
    by (simp add: transform_wellformed_def)
qed

section \<open>Properties of TurnPage\<close>

subsection \<open>What the operations leave unchanged\<close>

lemma upd_wrapper_frame: "\<exists>ws. upd_wrapper wid f s = s\<lparr>wrappers := ws\<rparr>"
proof (cases "wid < length (wrappers s)")
  case True
  then show ?thesis by (auto simp: upd_wrapper_def)
next
  case False
  then have "upd_wrapper wid f s = s\<lparr>wrappers := wrappers s\<rparr>" by (simp add: upd_wrapper_def)
  then show ?thesis by blast
qed

lemma frame_refl: "\<exists>ws. s = s\<lparr>wrappers := ws\<rparr>" for s :: TurnPage
proof
  show "s = s\<lparr>wrappers := wrappers s\<rparr>" by simp
qed

lemma placePage_frame: "\<exists>ws. placePage v pg s = s\<lparr>wrappers := ws\<rparr>"
  unfolding placePage_def Let_def
  by (auto split: option.splits intro: upd_wrapper_frame frame_refl)

lemma fold_frame:
  fixes f :: "'a \<Rightarrow> TurnPage \<Rightarrow> TurnPage"
  assumes "\<And>x s. \<exists>ws. f x s = s\<lparr>wrappers := ws\<rparr>"
  shows "\<exists>ws. fold f xs s = s\<lparr>wrappers := ws\<rparr>"
proof (induction xs arbitrary: s)
  case Nil
  show ?case using frame_refl by simp
next
  case (Cons x xs)
  obtain w1 where 1: "f x s = s\<lparr>wrappers := w1\<rparr>" using assms by blast
  obtain w2 where 2: "fold f xs (f x s) = (f x s)\<lparr>wrappers := w2\<rparr>" using Cons.IH by blast
  have "fold f (x # xs) s = s\<lparr>wrappers := w2\<rparr>" using 1 2 by simp
  then show ?case by blast
qed

lemma updatePagesPosition_frame: "\<exists>ws. updatePagesPosition s = s\<lparr>wrappers := ws\<rparr>"
  unfolding updatePagesPosition_def by (rule fold_frame) (rule placePage_frame)

lemma setPage_same:
  "1 \<le> n \<Longrightarrow> n \<le> totalPages s \<Longrightarrow> page s = Page n \<Longrightarrow> setPage (Page n) s = (None, s)"
  by (simp add: setPage_def page_less_def page_greater_def strict_eq_def)

lemma setPage_NaN:
  "setPage NaN s =
     (None, dispatchEvent (pageChanged (page s) NaN) (updatePagesPosition (s\<lparr>page := NaN\<rparr>)))"
  by (simp add: setPage_def page_less_def page_greater_def strict_eq_def Let_def
      split: page_number.splits)

lemma setPage_frame:
  assumes "1 \<le> n" "n \<le> totalPages s"
  shows "\<exists>ws ev. setPage (Page n) s = (None, s\<lparr>page := Page n, wrappers := ws, events := ev\<rparr>)"
proof (cases "page s = Page n")
  case True
  then have "setPage (Page n) s =
      (None, s\<lparr>page := Page n, wrappers := wrappers s, events := events s\<rparr>)"
    using assms by (simp add: setPage_same)
  then show ?thesis by blast
next
  case False
  then have ne: "\<not> strict_eq (page s) (Page n)"
    by (auto simp: strict_eq_def split: page_number.splits)
  obtain ws where
    "updatePagesPosition (s\<lparr>page := Page n\<rparr>) = s\<lparr>page := Page n, wrappers := ws\<rparr>"
    using updatePagesPosition_frame [of "s\<lparr>page := Page n\<rparr>"] by auto
  then have "setPage (Page n) s =
      (None, s\<lparr>page := Page n, wrappers := ws,
               events := events s @ [pageChanged (page s) (Page n)]\<rparr>)"
    using assms ne
    by (simp add: setPage_def dispatchEvent_def Let_def page_less_def page_greater_def)
  then show ?thesis by blast
qed

lemma setPage_any_frame:
  "\<exists>pg ws ev. snd (setPage n s) = s\<lparr>page := pg, wrappers := ws, events := ev\<rparr>"
proof (cases n)
  case NaN
  obtain ws where "updatePagesPosition (s\<lparr>page := NaN\<rparr>) = s\<lparr>page := NaN, wrappers := ws\<rparr>"
    using updatePagesPosition_frame [of "s\<lparr>page := NaN\<rparr>"] by auto
  then have "snd (setPage n s) =
      s\<lparr>page := NaN, wrappers := ws, events := events s @ [pageChanged (page s) NaN]\<rparr>"
    using NaN by (simp add: setPage_NaN dispatchEvent_def)
  then show ?thesis by blast
next
  case (Page k)
  show ?thesis
  proof (cases "1 \<le> k \<and> k \<le> totalPages s")
    case True
    then obtain ws ev where
      "setPage (Page k) s = (None, s\<lparr>page := Page k, wrappers := ws, events := ev\<rparr>)"
      using setPage_frame by blast
    then have "snd (setPage n s) = s\<lparr>page := Page k, wrappers := ws, events := ev\<rparr>"
      using Page by simp
    then show ?thesis by blast
  next
    case False
    then have "snd (setPage n s) =
        s\<lparr>page := page s, wrappers := wrappers s, events := events s\<rparr>"
      using Page by (auto simp: setPage_def page_less_def page_greater_def)
    then show ?thesis by blast
  qed
qed

lemma js_rem_2: "js_rem p 2 = 0 \<longleftrightarrow> even p"
proof -
  have "\<bar>p\<bar> mod 2 = 0 \<longleftrightarrow> even p" by presburger
  moreover have "sgn p = 0 \<longleftrightarrow> p = 0" by (simp add: sgn_if)
  ultimately show ?thesis by (auto simp: js_rem_def)
qed

lemma view_double:
  "display s = ''double'' \<Longrightarrow> page s = Page p \<Longrightarrow> p \<noteq> 0 \<Longrightarrow>
   view s = (if odd p then [p, p + 1] else [p - 1, p])"
  by (simp add: view_def js_rem_2 Let_def page_or_def)

lemma view_not_double:
  "display s \<noteq> ''double'' \<Longrightarrow> page s = Page p \<Longrightarrow> p \<noteq> 0 \<Longrightarrow> view s = [p]"
  by (simp add: view_def Let_def page_or_def)

lemma view_frame [simp]: "view (s\<lparr>wrappers := ws\<rparr>) = view s" "view (s\<lparr>events := ev\<rparr>) = view s"
  by (simp_all add: view_def)

subsection \<open>The four-page book\<close>

lemma addPage_Some:
  "pg \<noteq> 0 \<Longrightarrow> addPage (Some el) (Some pg) s =
     s\<lparr>totalPages := max (totalPages s) pg,
       elems := (elems s)
         (el := \<lparr>e_width = Some (getPageWidth s), e_height = Some (offsetHeight s)\<rparr>),
       pageObjs := obj_set pg el (pageObjs s),
       pageWrap := obj_set pg (length (wrappers s)) (pageWrap s),
       pagePlace := obj_set pg pg (pagePlace s),
       wrappers := wrappers s @
         [\<lparr>w_width = getPageWidth s, w_height = offsetHeight s, w_visibility = None,
           w_top = None, w_left = None, w_right = None, w_bottom = None,
           w_zIndex = None, w_transformOrigin = None, w_transform = NotSet,
           w_transition = None, w_child = el, w_attached = True\<rparr>]\<rparr>"
  by (simp add: addPage_def Let_def int_or_def getPageWidth_def max_def)

lemma setDisplay_same: "d \<in> set displays \<Longrightarrow> display s = d \<Longrightarrow> setDisplay d s = (None, s)"
  by (simp add: setDisplay_def)

lemma TurnPage_new_four:
  assumes "d = ''single'' \<or> d = ''double''"
  shows "TurnPage_new 800 600 0 0 True False (defaultLeafOptions\<lparr>l_display := Some d, l_corners := cs\<rparr>)
            [0, 1, 2, 3] =
     (None,
      \<lparr>options = defaultLeafOptions\<lparr>l_display := Some d, l_corners := cs\<rparr>, offsetWidth = 800,
       offsetHeight = 600, boundingLeft = 0, boundingTop = 0,
       element_transform = Some ''translate3d(0px, 0px, 0px)'',
       pageObjs = [(1, 0), (2, 1), (3, 2), (4, 3)],
       pageWrap = [(1, 0), (2, 1), (3, 2), (4, 3)],
       pagePlace = [(1, 1), (2, 2), (3, 3), (4, 4)], pageMv = [], totalPages = 4,
       page = Page 1, display = d, disabled = False, done_flag = True,
       wrappers = map (\<lambda>el. \<lparr>w_width = (if d = ''double'' then 400 else 800), w_height = 600,
           w_visibility = None,
           w_top = None, w_left = None, w_right = None, w_bottom = None,
           w_zIndex = None, w_transformOrigin = None, w_transform = NotSet,
           w_transition = None, w_child = el, w_attached = True\<rparr>) [0, 1, 2, 3],
       elems = fold (\<lambda>el m. m(el := \<lparr>e_width = Some (if d = ''double'' then 400 else 800),
           e_height = Some 600\<rparr>)) [0, 1, 2, 3] (\<lambda>_. \<lparr>e_width = None, e_height = None\<rparr>),
       events = [], timers = []\<rparr>)"
proof -
  have d: "d \<in> set displays" "d \<noteq> []" using assms by (auto simp: displays_def)
  show ?thesis
    using d
    by (simp add: TurnPage_new_def defaultLeafOptions_def setDisplay_same setPage_same
        int_or_def str_or_def bool_of_opt_def addPage_Some enumerate_eq_zip upt_rec Let_def
        getPageWidth_def)
qed

lemma book4_fields:
  assumes "d = ''single'' \<or> d = ''double''"
  shows "page (book4 d) = Page 1" "totalPages (book4 d) = 4" "display (book4 d) = d"
    "pageMv (book4 d) = []" "pageWrap (book4 d) = [(1, 0), (2, 1), (3, 2), (4, 3)]"
    "length (wrappers (book4 d)) = 4" "disabled (book4 d) = False"
    "offsetWidth (book4 d) = 800" "offsetHeight (book4 d) = 600"
    "boundingLeft (book4 d) = 0" "boundingTop (book4 d) = 0" "events (book4 d) = []"
  unfolding book4_def
  using TurnPage_new_four [OF assms, of None] by (simp_all add: defaultLeafOptions_def)

lemma book_backward_fields:
  "offsetWidth book_backward = 800" "offsetHeight book_backward = 600"
  "l_corners (options book_backward) = Some [(''backward'', [''bl'', ''tl''])]"
  unfolding book_backward_def
  using TurnPage_new_four [of "''double''" "Some [(''backward'', [''bl'', ''tl''])]"]
  by (simp_all add: defaultLeafOptions_def)

subsection \<open>Navigation\<close>

text \<open>
  Claim C1. For every page \<open>p\<close> with \<open>1 \<le> p \<le> totalPages\<close>, \<open>setPage p\<close> succeeds and
  the view computed afterwards contains \<open>p\<close>: in single mode (any mode that is not
  \<open>double\<close>) it is \<open>[p]\<close>; in double mode it is \<open>[p, p + 1]\<close> when \<open>p\<close> is odd and
  \<open>[p - 1, p]\<close> when \<open>p\<close> is even, a pair of adjacent page numbers whose first is odd.
\<close>

theorem setPage_view_contains:
  assumes "1 \<le> p" and "p \<le> totalPages s"
  shows "fst (setPage (Page p) s) = None \<and>
         page (snd (setPage (Page p) s)) = Page p \<and>
         p \<in> set (view (snd (setPage (Page p) s))) \<and>
         (display s \<noteq> ''double'' \<longrightarrow> view (snd (setPage (Page p) s)) = [p]) \<and>
         (display s = ''double'' \<longrightarrow>
            view (snd (setPage (Page p) s)) = (if odd p then [p, p + 1] else [p - 1, p]) \<and>
            odd (hd (view (snd (setPage (Page p) s)))) \<and>
            last (view (snd (setPage (Page p) s))) = hd (view (snd (setPage (Page p) s))) + 1)"
proof -
  obtain ws ev where
    sp: "setPage (Page p) s = (None, s\<lparr>page := Page p, wrappers := ws, events := ev\<rparr>)"
    using setPage_frame [OF assms] by blast
  let ?s' = "s\<lparr>page := Page p, wrappers := ws, events := ev\<rparr>"
  have p0: "p \<noteq> 0" using assms(1) by simp
  have single: "view ?s' = [p]" if "display s \<noteq> ''double''"
    using that p0 by (simp add: view_not_double)
  have double: "view ?s' = (if odd p then [p, p + 1] else [p - 1, p])" if "display s = ''double''"
    using that p0 by (simp add: view_double)
  have mem: "p \<in> set (view ?s')"
    using single double by (cases "display s = ''double''") auto
  show ?thesis
    using sp single double mem by auto
qed

text \<open>The theorem of C1 on the four-page book in double mode, at an odd and at an even page.\<close>

theorem setPage_view_contains_witness:
  "(1::int) \<le> 3 \<and> 3 \<le> totalPages (book4 ''double'') \<and>
   view (snd (setPage (Page 3) (book4 ''double''))) = [3, 4] \<and>
   view (snd (setPage (Page 2) (book4 ''double''))) = [1, 2] \<and>
   view (snd (setPage (Page 2) (book4 ''single''))) = [2]"
proof -
  have d: "display (book4 ''double'') = ''double''" "totalPages (book4 ''double'') = 4"
    by (simp_all add: book4_fields)
  have s: "display (book4 ''single'') = ''single''" "totalPages (book4 ''single'') = 4"
    by (simp_all add: book4_fields)
  have 3: "view (snd (setPage (Page 3) (book4 ''double''))) = [3, 4]"
    using setPage_view_contains [of 3 "book4 ''double''"] d by simp
  have 2: "view (snd (setPage (Page 2) (book4 ''double''))) = [1, 2]"
    using setPage_view_contains [of 2 "book4 ''double''"] d by simp
  have 1: "view (snd (setPage (Page 2) (book4 ''single''))) = [2]"
    using setPage_view_contains [of 2 "book4 ''single''"] s by simp
  show ?thesis using 1 2 3 d by simp
qed

lemma turn_next_double:
  assumes "display s = ''double''" and "page s = Page p" and "1 \<le> p"
    and "n = (if odd p then p + 2 else p + 1)" and "n \<le> totalPages s"
  shows "\<exists>ws ev. turn_next s = (None, s\<lparr>page := Page n, wrappers := ws, events := ev\<rparr>)"
proof -
  have "Max (set (view s)) + 1 = n"
    using assms(1-4) by (simp add: view_double)
  moreover have "1 \<le> n" using assms(3,4) by auto
  ultimately show ?thesis
    using setPage_frame [of n s] assms(5) by (simp add: turn_next_def)
qed

lemma turn_previous_double:
  assumes "display s = ''double''" and "page s = Page p" and "1 \<le> p"
    and "n = (if odd p then p - 1 else p - 2)" and "1 \<le> n"
    and "n \<le> totalPages s"
  shows "\<exists>ws ev. turn_previous s = (None, s\<lparr>page := Page n, wrappers := ws, events := ev\<rparr>)"
proof -
  have "Min (set (view s)) - 1 = n"
    using assms(1-4) by (simp add: view_double)
  then show ?thesis
    using setPage_frame [of n s] assms(5,6) by (simp add: turn_previous_def)
qed

lemma book4_next:
  "\<exists>ws ev. turn_next (book4 ''double'') =
     (None, (book4 ''double'')\<lparr>page := Page 3, wrappers := ws, events := ev\<rparr>)"
  by (rule turn_next_double [where p = 1]) (simp_all add: book4_fields)

lemma book4_next_previous:
  "\<exists>ws ev. turn_previous (snd (turn_next (book4 ''double''))) =
     (None, (book4 ''double'')\<lparr>page := Page 2, wrappers := ws, events := ev\<rparr>)"
proof -
  obtain ws ev where n: "turn_next (book4 ''double'') =
     (None, (book4 ''double'')\<lparr>page := Page 3, wrappers := ws, events := ev\<rparr>)"
    using book4_next by blast
  let ?b = "(book4 ''double'')\<lparr>page := Page 3, wrappers := ws, events := ev\<rparr>"
  have "\<exists>ws' ev'. turn_previous ?b =
          (None, ?b\<lparr>page := Page 2, wrappers := ws', events := ev'\<rparr>)"
    by (rule turn_previous_double [where p = 3]) (simp_all add: book4_fields)
  then show ?thesis using n by auto
qed

text \<open>
  Claim C2, as amended. In double mode with four pages and the current page 1, the view
  is \<open>[1, 2]\<close>; after \<open>next()\<close> the current page is 3 and the view is \<open>[3, 4]\<close>; after a
  subsequent \<open>previous()\<close> the current page is 2 and the view is \<open>[1, 2]\<close> again.
\<close>

theorem double_next_previous:
  "page (book4 ''double'') = Page 1 \<and> display (book4 ''double'') = ''double'' \<and>
   totalPages (book4 ''double'') = 4 \<and>
   view (book4 ''double'') = [1, 2] \<and>
   fst (turn_next (book4 ''double'')) = None \<and>
   page (snd (turn_next (book4 ''double''))) = Page 3 \<and>
   view (snd (turn_next (book4 ''double''))) = [3, 4] \<and>
   fst (turn_previous (snd (turn_next (book4 ''double'')))) = None \<and>
   page (snd (turn_previous (snd (turn_next (book4 ''double''))))) = Page 2 \<and>
   view (snd (turn_previous (snd (turn_next (book4 ''double''))))) = [1, 2]"
proof -
  obtain ws ev where n: "turn_next (book4 ''double'') =
     (None, (book4 ''double'')\<lparr>page := Page 3, wrappers := ws, events := ev\<rparr>)"
    using book4_next by blast
  obtain ws' ev' where p: "turn_previous (snd (turn_next (book4 ''double''))) =
     (None, (book4 ''double'')\<lparr>page := Page 2, wrappers := ws', events := ev'\<rparr>)"
    using book4_next_previous by blast
  have b: "page (book4 ''double'') = Page 1" "display (book4 ''double'') = ''double''"
    "totalPages (book4 ''double'') = 4"
    by (simp_all add: book4_fields)
  have v1: "view (book4 ''double'') = [1, 2]"
    by (simp add: view_double [where p = 1] book4_fields)
  have n1: "fst (turn_next (book4 ''double'')) = None"
    and n2: "page (snd (turn_next (book4 ''double''))) = Page 3"
    by (simp_all add: n)
  have n3: "view (snd (turn_next (book4 ''double''))) = [3, 4]"
    unfolding n by (simp add: view_double [where p = 3] book4_fields)
  have p1: "fst (turn_previous (snd (turn_next (book4 ''double'')))) = None"
    and p2: "page (snd (turn_previous (snd (turn_next (book4 ''double''))))) = Page 2"
    by (simp_all add: p)
  have p3: "view (snd (turn_previous (snd (turn_next (book4 ''double''))))) = [1, 2]"
    unfolding p by (simp add: view_double [where p = 2] book4_fields)
  from b v1 n1 n2 n3 p1 p2 p3 show ?thesis by blast
qed

text \<open>
  Claim C2 as stated fails: after \<open>next()\<close> and \<open>previous()\<close> the current page of the
  four-page book in double mode is 2, not 1.
\<close>

theorem double_previous_counterexample:
  "page (snd (turn_previous (snd (turn_next (book4 ''double''))))) = Page 2 \<and>
   page (snd (turn_previous (snd (turn_next (book4 ''double''))))) \<noteq> Page 1"
proof -
  obtain ws' ev' where p: "turn_previous (snd (turn_next (book4 ''double''))) =
     (None, (book4 ''double'')\<lparr>page := Page 2, wrappers := ws', events := ev'\<rparr>)"
    using book4_next_previous by blast
  show ?thesis by (simp add: p)
qed

text \<open>
  Claim C3, on the code. \<open>setPage\<close> rejects a number that compares below 1 or above
  \<open>totalPages\<close>: it fails with the out-of-range error and the state after the call is the
  state before it. \<open>NaN\<close>, a number outside \<open>[1, totalPages]\<close>, passes both comparisons
  and the comparison with the current page: \<open>setPage(NaN)\<close> returns normally, stores
  \<open>NaN\<close> as the current page, recomputes the positions and dispatches \<open>pageChanged\<close>.
\<close>

theorem setPage_range_check_misses_NaN:
  "(page_less n 1 \<or> page_greater n (totalPages s) \<longrightarrow>
      setPage n s = (Some (InvalidPageNumber n), s)) \<and>
   fst (setPage NaN s) = None \<and>
   page (snd (setPage NaN s)) = NaN \<and>
   events (snd (setPage NaN s)) = events s @ [pageChanged (page s) NaN] \<and>
   snd (setPage NaN s) \<noteq> s"
proof -
  obtain ws where u: "updatePagesPosition (s\<lparr>page := NaN\<rparr>) = s\<lparr>page := NaN, wrappers := ws\<rparr>"
    using updatePagesPosition_frame [of "s\<lparr>page := NaN\<rparr>"] by auto
  have n: "setPage NaN s =
      (None, s\<lparr>page := NaN, wrappers := ws, events := events s @ [pageChanged (page s) NaN]\<rparr>)"
    by (simp add: setPage_NaN u dispatchEvent_def)
  have 1: "page_less n 1 \<or> page_greater n (totalPages s) \<longrightarrow>
      setPage n s = (Some (InvalidPageNumber n), s)"
    by (simp add: setPage_def)
  have 2: "fst (setPage NaN s) = None"
    and 3: "page (snd (setPage NaN s)) = NaN"
    and 4: "events (snd (setPage NaN s)) = events s @ [pageChanged (page s) NaN]"
    by (simp_all add: n)
  have "events (snd (setPage NaN s)) \<noteq> events s" by (simp add: n)
  then have 5: "snd (setPage NaN s) \<noteq> s" by auto
  show ?thesis
    by (intro conjI) (fact 1 2 3 4 5)+
qed

text \<open>
  The theorem of C3 on the four-page book: 5 and 0 are rejected, \<open>NaN\<close> becomes the
  current page.
\<close>

theorem setPage_range_check_misses_NaN_witness:
  "page_greater (Page 5) (totalPages (book4 ''double'')) \<and> page_less (Page 0) 1 \<and>
   setPage (Page 5) (book4 ''double'') = (Some (InvalidPageNumber (Page 5)), book4 ''double'') \<and>
   setPage (Page 0) (book4 ''double'') = (Some (InvalidPageNumber (Page 0)), book4 ''double'') \<and>
   page (snd (setPage NaN (book4 ''double''))) = NaN \<and>
   events (snd (setPage NaN (book4 ''double''))) = [pageChanged (Page 1) NaN]"
proof -
  have t: "page_greater (Page 5) (totalPages (book4 ''double''))" "page_less (Page 0) 1"
    by (simp_all add: book4_fields page_greater_def page_less_def)
  show ?thesis
    using t setPage_range_check_misses_NaN [of "Page 5" "book4 ''double''"]
      setPage_range_check_misses_NaN [of "Page 0" "book4 ''double''"]
    by (simp add: book4_fields)
qed

subsection \<open>The display mode\<close>

lemma setDisplay_invalid:
  "d \<notin> set displays \<Longrightarrow> setDisplay d s = (Some (InvalidDisplayMode d), s)"
  by (simp add: setDisplay_def)

lemma resizePages_frame: "\<exists>ws el. resizePages width s = s\<lparr>wrappers := ws, elems := el\<rparr>"
proof -
  obtain ws where
    "fold (\<lambda>wid. upd_wrapper wid (\<lambda>w. w\<lparr>w_width := width\<rparr>)) (map snd (pageWrap s)) s
       = s\<lparr>wrappers := ws\<rparr>"
    using fold_frame [of "\<lambda>wid. upd_wrapper wid (\<lambda>w. w\<lparr>w_width := width\<rparr>)", OF upd_wrapper_frame]
    by blast
  then have "resizePages width s =
      s\<lparr>wrappers := ws,
        elems := fold (\<lambda>el m. m(el := (m el)\<lparr>e_width := Some width\<rparr>))
                   (map snd (pageObjs s)) (elems s)\<rparr>"
    by (simp add: resizePages_def)
  then show ?thesis by blast
qed

lemma setDisplay_changed:
  assumes "d \<in> set displays" and "display s \<noteq> d"
  shows "\<exists>ws el. setDisplay d s =
           (None, s\<lparr>display := d, wrappers := ws, elems := el,
                    events := events s @ [displayChanged (display s) d]\<rparr>)"
proof (cases "done_flag s")
  case False
  then have "setDisplay d s =
      (None, s\<lparr>display := d, wrappers := wrappers s, elems := elems s,
               events := events s @ [displayChanged (display s) d]\<rparr>)"
    using assms by (simp add: setDisplay_def dispatchEvent_def Let_def)
  then show ?thesis by blast
next
  case True
  define s1 where "s1 = s\<lparr>display := d\<rparr>"
  obtain ws el where r: "resizePages (getPageWidth s1) s1 = s1\<lparr>wrappers := ws, elems := el\<rparr>"
    using resizePages_frame by blast
  define s4 where "s4 = s1\<lparr>wrappers := ws, elems := el\<rparr>"
  obtain w5 where u: "updatePagesPosition s4 = s4\<lparr>wrappers := w5\<rparr>"
    using updatePagesPosition_frame by blast
  have "setDisplay d s =
      (None, dispatchEvent (displayChanged (display s) d)
               (updatePagesPosition (resizePages (getPageWidth s1) s1)))"
    using assms True by (simp add: setDisplay_def Let_def s1_def)
  also have "updatePagesPosition (resizePages (getPageWidth s1) s1) = s4\<lparr>wrappers := w5\<rparr>"
    by (simp only: r u s4_def [symmetric])
  finally have "setDisplay d s =
      (None, s\<lparr>display := d, wrappers := w5, elems := el,
               events := events s @ [displayChanged (display s) d]\<rparr>)"
    by (simp add: s4_def s1_def dispatchEvent_def)
  then show ?thesis by blast
qed

lemma setDisplay_valid:
  assumes "d \<in> set displays"
  shows "fst (setDisplay d s) = None \<and> display (snd (setDisplay d s)) = d \<and>
         (events (snd (setDisplay d s)) = events s \<or>
          events (snd (setDisplay d s)) = events s @ [displayChanged (display s) d])"
proof (cases "display s = d")
  case True
  then show ?thesis using assms by (simp add: setDisplay_same)
next
  case False
  then obtain ws el where "setDisplay d s =
           (None, s\<lparr>display := d, wrappers := ws, elems := el,
                    events := events s @ [displayChanged (display s) d]\<rparr>)"
    using setDisplay_changed [OF assms] by blast
  then show ?thesis by simp
qed

text \<open>
  Claim C9. \<open>setDisplay\<close> is idempotent: for a valid mode, the second of two calls in a
  row returns normally and leaves the state of the first call as it is, and the two calls
  together dispatch at most one \<open>displayChanged\<close> notification.
\<close>

theorem setDisplay_idempotent:
  assumes "d \<in> set displays"
  shows "fst (setDisplay d s) = None \<and>
         setDisplay d (snd (setDisplay d s)) = (None, snd (setDisplay d s)) \<and>
         (events (snd (setDisplay d (snd (setDisplay d s)))) = events s \<or>
          events (snd (setDisplay d (snd (setDisplay d s))))
            = events s @ [displayChanged (display s) d])"
proof -
  have v: "fst (setDisplay d s) = None" "display (snd (setDisplay d s)) = d"
    "events (snd (setDisplay d s)) = events s \<or>
     events (snd (setDisplay d s)) = events s @ [displayChanged (display s) d]"
    using setDisplay_valid [OF assms, of s] by auto
  have second: "setDisplay d (snd (setDisplay d s)) = (None, snd (setDisplay d s))"
    using assms v(2) by (rule setDisplay_same)
  show ?thesis using v(1,3) second by simp
qed

text \<open>
  The theorem of C9 on the four-page book in double mode, set to single mode twice: one
  notification.
\<close>

theorem setDisplay_idempotent_witness:
  "''single'' \<in> set displays \<and>
   setDisplay ''single'' (snd (setDisplay ''single'' (book4 ''double'')))
     = (None, snd (setDisplay ''single'' (book4 ''double''))) \<and>
   events (snd (setDisplay ''single'' (snd (setDisplay ''single'' (book4 ''double'')))))
     = [displayChanged ''double'' ''single'']"
proof -
  have m: "''single'' \<in> set displays" by (simp add: displays_def)
  obtain ws el where c: "setDisplay ''single'' (book4 ''double'') =
           (None, (book4 ''double'')\<lparr>display := ''single'', wrappers := ws, elems := el,
                    events := events (book4 ''double'') @
                      [displayChanged (display (book4 ''double'')) ''single'']\<rparr>)"
    using setDisplay_changed [OF m, of "book4 ''double''"] by (auto simp: book4_fields)
  have e: "events (snd (setDisplay ''single'' (book4 ''double'')))
     = [displayChanged ''double'' ''single'']"
    unfolding c by (simp add: book4_fields)
  have i: "setDisplay ''single'' (snd (setDisplay ''single'' (book4 ''double'')))
     = (None, snd (setDisplay ''single'' (book4 ''double'')))"
    using setDisplay_idempotent [OF m, of "book4 ''double''"] by simp
  show ?thesis using m e i by simp
qed

subsection \<open>The motion set\<close>

lemma upd_wrapper_pageMv [simp]: "pageMv (upd_wrapper wid f s) = pageMv s"
  by (simp add: upd_wrapper_def)

lemma dispatchEvent_pageMv [simp]: "pageMv (dispatchEvent ev s) = pageMv s"
  by (simp add: dispatchEvent_def)

lemma applyFoldTransform_pageMv [simp]: "pageMv (applyFoldTransform wid foldp s) = pageMv s"
  by (simp add: applyFoldTransform_def split: prod.splits)

lemma setPage_pageMv [simp]: "pageMv (snd (setPage n s)) = pageMv s"
proof -
  obtain pg ws ev where "snd (setPage n s) = s\<lparr>page := pg, wrappers := ws, events := ev\<rparr>"
    using setPage_any_frame by blast
  then show ?thesis by simp
qed

lemma setDisplay_pageMv [simp]: "pageMv (snd (setDisplay d s)) = pageMv s"
proof (cases "d \<in> set displays \<and> display s \<noteq> d")
  case True
  then obtain ws el where "setDisplay d s =
           (None, s\<lparr>display := d, wrappers := ws, elems := el,
                    events := events s @ [displayChanged (display s) d]\<rparr>)"
    using setDisplay_changed by blast
  then show ?thesis by simp
next
  case False
  then show ?thesis by (auto simp: setDisplay_def)
qed

lemma addPage_pageMv [simp]: "pageMv (addPage el pg s) = pageMv s"
  by (simp add: addPage_def Let_def split: option.splits)

lemma turn_next_pageMv [simp]: "pageMv (snd (turn_next s)) = pageMv s"
  by (simp add: turn_next_def Let_def)

lemma turn_previous_pageMv [simp]: "pageMv (snd (turn_previous s)) = pageMv s"
  by (simp add: turn_previous_def Let_def)

lemma turn_destroy_pageMv [simp]: "pageMv (turn_destroy s) = []"
  by (simp add: turn_destroy_def Let_def)

lemma turn_timer_fired_pageMv [simp]: "pageMv (turn_timer_fired s) = pageMv s"
  by (simp add: turn_timer_fired_def split: list.splits)

lemma turn_updateFlip_pageMv [simp]: "pageMv (turn_updateFlip p s) = pageMv s"
  by (simp add: turn_updateFlip_def Let_def split: list.splits option.splits)

lemma turn_completeFlip_pageMv:
  "pageMv (turn_completeFlip s) = pageMv s \<or> pageMv (turn_completeFlip s) = []"
  by (simp add: turn_completeFlip_def Let_def split: list.splits option.splits)

lemma startFlip_busy: "pageMv s \<noteq> [] \<Longrightarrow> startFlip c s = s"
  by (simp add: startFlip_def)

lemma startFlip_pageMv:
  "pageMv (startFlip c s) = pageMv s \<or> (\<exists>pg. pageMv (startFlip c s) = [pg])"
  by (simp add: startFlip_def Let_def split: option.splits)

lemma startFlip_starts:
  assumes "\<not> disabled s" and "pageMv s = []"
    and "pg = (if CHR ''r'' \<in> set c then hd (view s) else last (view s))"
    and "map_of (pageWrap s) pg = Some wid"
    and "nextPage = (if CHR ''r'' \<in> set c then pg + 1 else pg - 1)"
    and "1 \<le> nextPage" and "nextPage \<le> totalPages s"
  shows "pageMv (startFlip c s) = [pg]"
proof (cases "CHR ''r'' \<in> set c")
  case True
  with assms show ?thesis by (simp add: startFlip_def Let_def)
next
  case False
  with assms show ?thesis by (simp add: startFlip_def Let_def)
qed

lemma startFlip_length:
  assumes "length (pageMv s) \<le> 1"
  shows "length (pageMv (startFlip c s)) \<le> 1"
proof -
  from startFlip_pageMv [of c s] show ?thesis
  proof
    assume "pageMv (startFlip c s) = pageMv s"
    with assms show ?thesis by simp
  next
    assume "\<exists>pg. pageMv (startFlip c s) = [pg]"
    then show ?thesis by auto
  qed
qed

lemma fold_pageMv:
  assumes "\<And>x s. pageMv (f x s) = pageMv s"
  shows "pageMv (fold f xs s) = pageMv s"
  by (induction xs arbitrary: s) (simp_all add: assms)

lemma TurnPage_new_pageMv:
  "pageMv (snd (TurnPage_new width height bleft btop has3d touch opt children)) = []"
proof -
  define d0 where "d0 = str_or (l_display opt) ''double''"
  define s0 :: TurnPage where
    "s0 = \<lparr>options = opt, offsetWidth = width, offsetHeight = height,
             boundingLeft = bleft, boundingTop = btop, element_transform = None,
             pageObjs = [], pageWrap = [], pagePlace = [], pageMv = [], totalPages = 0,
             page = Page (int_or (l_page opt) 1),
             display = str_or (l_display opt) ''double'',
             disabled = False, done_flag = False, wrappers = [],
             elems = (\<lambda>_. \<lparr>e_width = None, e_height = None\<rparr>), events = [], timers = []\<rparr>"
  define build where "build = (\<lambda>s1. fold (\<lambda>(i, child). addPage (Some child) (Some (int i + 1)))
       (enumerate 0 children)
       (if has3d \<and> \<not> touch \<and> bool_of_opt (l_acceleration opt)
        then s1\<lparr>element_transform := Some ''translate3d(0px, 0px, 0px)''\<rparr> else s1))"
  have new: "TurnPage_new width height bleft btop has3d touch opt children =
      (case setDisplay d0 s0 of
         (Some err, s1) \<Rightarrow> (Some err, s1)
       | (None, s1) \<Rightarrow>
           (case setPage (Page (int_or (l_page opt) 1)) (build s1) of
              (Some err, s4) \<Rightarrow> (Some err, s4)
            | (None, s4) \<Rightarrow> (None, s4\<lparr>done_flag := True\<rparr>)))"
    unfolding TurnPage_new_def Let_def d0_def s0_def build_def by (rule refl)
  obtain e1 s1 where sd: "setDisplay d0 s0 = (e1, s1)" by (cases "setDisplay d0 s0")
  have 1: "pageMv s1 = []"
    using setDisplay_pageMv [of d0 s0, unfolded sd] by (simp add: s0_def)
  have 3: "pageMv (build s1) = []"
    unfolding build_def using 1 by (subst fold_pageMv) (simp_all split: prod.splits)
  obtain e4 s4 where sp: "setPage (Page (int_or (l_page opt) 1)) (build s1) = (e4, s4)"
    by (cases "setPage (Page (int_or (l_page opt) 1)) (build s1)")
  have 4: "pageMv s4 = []"
    using setPage_pageMv [of "Page (int_or (l_page opt) 1)" "build s1", unfolded sp] 3 by simp
  show ?thesis
    unfolding new sd using 1 4 by (cases e1; cases e4) (simp_all add: sp)
qed

lemma turn_step_pageMv: "length (pageMv s) \<le> 1 \<Longrightarrow> length (pageMv (turn_step a s)) \<le> 1"
proof (cases a)
  case (HandleStart e)
  assume "length (pageMv s) \<le> 1"
  then show ?thesis
    using HandleStart startFlip_length [of s]
    by (auto simp: turn_handleStart_def split: option.splits)
next
  case HandleEnd
  assume "length (pageMv s) \<le> 1"
  then show ?thesis
    using turn_completeFlip_pageMv [of s] HandleEnd by (auto simp: turn_handleEnd_def)
qed (simp_all add: turn_handleMove_def)

lemma turn_reachable_pageMv: "turn_reachable s \<Longrightarrow> length (pageMv s) \<le> 1"
proof (induction rule: turn_reachable.induct)
  case (reach_new width height bleft btop has3d touch opt children)
  show ?case by (simp add: TurnPage_new_pageMv)
next
  case (reach_step s a)
  from reach_step.IH show ?case by (rule turn_step_pageMv)
qed

subsection \<open>One fold session at a time\<close>

text \<open>
  Claim C6. In every reachable state of the pagination engine the motion set \<open>pageMv\<close>
  has length 0 or 1, and while it is not empty \<open>startFlip\<close> leaves the whole state, the
  motion set included, as it is. The single-surface engine ignores a start, from the
  pointer or programmatic, while \<open>isTurning\<close> holds.
\<close>

theorem one_fold_session:
  assumes "turn_reachable s"
  shows "length (pageMv s) \<le> 1 \<and>
         (pageMv s \<noteq> [] \<longrightarrow> startFlip c s = s) \<and>
         (isTurning f \<longrightarrow> handleStart e f = f \<and> flip c' f = f)"
  using turn_reachable_pageMv [OF assms] startFlip_busy handleStart_turning flip_turning
  by blast

lemma book4_start:
  "turn_step (HandleStart (MouseEvent 790 10)) (book4 ''double'')
     = startFlip ''tr'' (book4 ''double'')"
proof -
  have "turn_detectCorner (book4 ''double'')
          (getEventPoint (book4 ''double'') (MouseEvent 790 10)) = Some ''tr''"
    by (simp add: turn_detectCorner_def getEventPoint_def book4_fields)
  then show ?thesis by (simp add: turn_handleStart_def book4_fields)
qed

lemma book4_start_pageMv: "pageMv (startFlip ''tr'' (book4 ''double'')) = [1]"
proof (rule startFlip_starts)
  show "\<not> disabled (book4 ''double'')" by (simp add: book4_fields)
  show "pageMv (book4 ''double'') = []" by (simp add: book4_fields)
  show "1 = (if CHR ''r'' \<in> set ''tr'' then hd (view (book4 ''double''))
             else last (view (book4 ''double'')))"
    by (simp add: view_double book4_fields)
  show "map_of (pageWrap (book4 ''double'')) 1 = Some 0" by (simp add: book4_fields)
  show "2 = (if CHR ''r'' \<in> set ''tr'' then (1::int) + 1 else 1 - 1)" by simp
  show "(1::int) \<le> 2" by simp
  show "2 \<le> totalPages (book4 ''double'')" by (simp add: book4_fields)
qed

text \<open>
  The theorem of C6 on the four-page book in double mode after a start in the top-right
  corner: page 1 is in motion, and a second \<open>startFlip\<close> changes nothing.
\<close>

theorem one_fold_session_witness:
  "turn_reachable (turn_step (HandleStart (MouseEvent 790 10)) (book4 ''double'')) \<and>
   pageMv (turn_step (HandleStart (MouseEvent 790 10)) (book4 ''double'')) = [1] \<and>
   startFlip ''br'' (turn_step (HandleStart (MouseEvent 790 10)) (book4 ''double''))
     = turn_step (HandleStart (MouseEvent 790 10)) (book4 ''double'') \<and>
   isTurning (flip ''tr'' (flip_demo ''forward'')) \<and>
   handleStart (MouseEvent 390 10) (flip ''tr'' (flip_demo ''forward''))
     = flip ''tr'' (flip_demo ''forward'')"
proof -
  let ?s = "turn_step (HandleStart (MouseEvent 790 10)) (book4 ''double'')"
  let ?f = "flip ''tr'' (flip_demo ''forward'')"
  have r: "turn_reachable ?s"
    unfolding book4_def by (intro reach_step reach_new)
  have m: "pageMv ?s = [1]" by (simp only: book4_start book4_start_pageMv)
  have gp: "getDefaultCornerPoint (flip_demo ''forward'') ''tr'' = Some \<lparr>px = 400, py = 0\<rparr>"
    by (simp add: getDefaultCornerPoint_def flip_demo_simps)
  have t: "isTurning ?f"
    unfolding flip_valid [OF gp, simplified flip_demo_simps, simplified]
    by (simp add: applyTransform_fields)
  show ?thesis
    using one_fold_session [OF r, of "''br''" ?f "MouseEvent 390 10" "''br''"] r m t by simp
qed

subsection \<open>The corner policy of the pagination engine\<close>

text \<open>
  Claim C4 as stated fails for the pagination engine: with options that name the
  \<open>backward\<close> corners, a pointer in the top-right zone of the book is detected as \<open>tr\<close>.
\<close>

theorem turn_backward_counterexample:
  "l_corners (options book_backward) = Some [(''backward'', [''bl'', ''tl''])] \<and>
   turn_detectCorner book_backward \<lparr>px = 790, py = 10\<rparr> = Some ''tr'' \<and>
   turn_detectCorner book_backward \<lparr>px = 790, py = 590\<rparr> = Some ''br''"
  by (simp add: book_backward_fields turn_detectCorner_def)

end
